theory Spec2Isabelle
  imports Complex_Main "HOL-Library.List_Lexorder" "HOL-Library.Sublist"
begin

section \<open>Python strings and exceptions\<close>

text \<open>
  A Python \<open>str\<close> is a sequence of Unicode code points, so the model takes it as a list
  of naturals: the code compares, splits and replaces by code point, and the glyphs of the
  icon table lie outside ASCII. \<open>u\<close> reads an ASCII literal as such a string.
\<close>

type_synonym pystr = "nat list"

definition u :: "string \<Rightarrow> pystr" where
  "u s = map of_char s"

text \<open>The exceptions the modelled code can raise; each is a value of the error side.\<close>

datatype exn =
    ValueError
  | IndexError
  | KeyError
  | AttributeError
  | UnboundLocalError
  | FileNotFoundError
  | RequestError
  | DecodeError

text \<open>
  \<open>s.split(sep)\<close> for a separator of one character (the only use the code makes of it):
  the pieces between the separators, at least one piece.
\<close>

fun py_split :: "nat \<Rightarrow> pystr \<Rightarrow> pystr list" where
  "py_split sep [] = [[]]"
| "py_split sep (c # cs) =
     (if c = sep then [] # py_split sep cs
      else (case py_split sep cs of
              [] \<Rightarrow> [[c]]
            | p # ps \<Rightarrow> (c # p) # ps))"

text \<open>
  \<open>s.replace(old, new)\<close>: every occurrence of \<open>old\<close>, found from the left and not
  overlapping, becomes \<open>new\<close>; with an empty \<open>old\<close> Python puts \<open>new\<close> before every
  character and at the end.
\<close>

function py_replace :: "pystr \<Rightarrow> pystr \<Rightarrow> pystr \<Rightarrow> pystr" where
  "py_replace old new [] = (if old = [] then new else [])"
| "py_replace old new (c # cs) =
     (if old = [] then new @ c # py_replace old new cs
      else if take (length old) (c # cs) = old
           then new @ py_replace old new (drop (length old) (c # cs))
           else c # py_replace old new cs)"
  by pat_completeness auto
termination
  by (relation "measure (\<lambda>(old, new, s). length s)") auto

section \<open>html.escape\<close>

text \<open>
  \<^verbatim>\<open>
  def escape(s, quote=True):
      s = s.replace("&", "&amp;") # Must be done first!
      s = s.replace("<", "&lt;")
      s = s.replace(">", "&gt;")
      if quote:
          s = s.replace('"', "&quot;")
          s = s.replace('\'', "&#x27;")
      return s
  \<close>
  The code calls it with the default \<open>quote=True\<close>.
\<close>

definition html_escape :: "pystr \<Rightarrow> pystr" where
  "html_escape s =
     py_replace (u [CHR 0x27]) (u ''&#x27;'')
       (py_replace (u [CHR 0x22]) (u ''&quot;'')
         (py_replace (u ''>'') (u ''&gt;'')
           (py_replace (u ''<'') (u ''&lt;'')
             (py_replace (u ''&'') (u ''&amp;'') s))))"

section \<open>html.unescape\<close>

text \<open>
  \<open>html.unescape\<close> is the standard library's; the code calls it on the popup name. It
  substitutes every match of the regular expression
  \<^verbatim>\<open>&(#[0-9]+;?|#[xX][0-9a-fA-F]+;?|[^\t\n\f <&#;]{1,32};?)\<close>
  from the left. The three alternatives are tried in this order at every \<open>&\<close>; each
  is greedy and nothing follows the group, so the first alternative that can match at all
  decides the match. The table of named references \<open>html.entities.html5\<close> (2231 entries)
  is a parameter \<open>h\<close> of the model.
\<close>

definition is_digit :: "nat \<Rightarrow> bool" where
  "is_digit c = (of_char CHR ''0'' \<le> c \<and> c \<le> of_char CHR ''9'')"

definition is_hexdigit :: "nat \<Rightarrow> bool" where
  "is_hexdigit c =
     (is_digit c \<or> (of_char CHR ''a'' \<le> c \<and> c \<le> of_char CHR ''f'')
                \<or> (of_char CHR ''A'' \<le> c \<and> c \<le> of_char CHR ''F''))"

text \<open>The class \<^verbatim>\<open>[^\t\n\f <&#;]\<close>.\<close>

definition is_name_char :: "nat \<Rightarrow> bool" where
  "is_name_char c = (c \<notin> {0x09, 0x0A, 0x0C} \<union> set (u '' <&#;''))"

text \<open>The trailing \<^verbatim>\<open>;?\<close>: the semicolon matched (or nothing), and the text left.\<close>

fun opt_semicolon :: "pystr \<Rightarrow> pystr \<times> pystr" where
  "opt_semicolon [] = ([], [])"
| "opt_semicolon (c # cs) = (if c = of_char CHR '';'' then ([c], cs) else ([], c # cs))"

text \<open>
  Each matcher reads the text after an \<open>&\<close> and gives the group matched and the text
  left, or \<open>None\<close> when its alternative does not match there.
\<close>

definition match_decimal :: "pystr \<Rightarrow> (pystr \<times> pystr) option" where
  "match_decimal s =
     (case s of
        [] \<Rightarrow> None
      | c # cs \<Rightarrow>
          if c = of_char CHR ''#'' \<and> takeWhile is_digit cs \<noteq> []
          then (case opt_semicolon (dropWhile is_digit cs) of
                  (semi, rest) \<Rightarrow> Some (c # takeWhile is_digit cs @ semi, rest))
          else None)"

definition match_hex :: "pystr \<Rightarrow> (pystr \<times> pystr) option" where
  "match_hex s =
     (case s of
        c # x # cs \<Rightarrow>
          if c = of_char CHR ''#'' \<and> (x = of_char CHR ''x'' \<or> x = of_char CHR ''X'')
             \<and> takeWhile is_hexdigit cs \<noteq> []
          then (case opt_semicolon (dropWhile is_hexdigit cs) of
                  (semi, rest) \<Rightarrow> Some (c # x # takeWhile is_hexdigit cs @ semi, rest))
          else None
      | _ \<Rightarrow> None)"

definition match_named :: "pystr \<Rightarrow> (pystr \<times> pystr) option" where
  "match_named s =
     (let name = take 32 (takeWhile is_name_char s) in
      if name = [] then None
      else (case opt_semicolon (drop (length name) s) of
              (semi, rest) \<Rightarrow> Some (name @ semi, rest)))"

definition charref_match :: "pystr \<Rightarrow> (pystr \<times> pystr) option" where
  "charref_match s =
     (case match_decimal s of
        Some m \<Rightarrow> Some m
      | None \<Rightarrow> (case match_hex s of Some m \<Rightarrow> Some m | None \<Rightarrow> match_named s))"

text \<open>
  \<open>int(s)\<close> and \<open>int(s, 16)\<close> on a string of digits; Python raises ValueError on the
  empty string, and on a character that is no digit of the base. (The limit that Python
  3.11 puts on the length of a decimal string is not modelled.)
\<close>

definition digit_value :: "nat \<Rightarrow> nat" where
  "digit_value c =
     (if is_digit c then c - of_char CHR ''0''
      else if of_char CHR ''a'' \<le> c \<and> c \<le> of_char CHR ''f'' then c - of_char CHR ''a'' + 10
      else c - of_char CHR ''A'' + 10)"

definition py_int :: "nat \<Rightarrow> pystr \<Rightarrow> exn + nat" where
  "py_int base s =
     (if s = [] \<or> \<not> list_all (if base = 16 then is_hexdigit else is_digit) s
      then Inl ValueError
      else Inr (foldl (\<lambda>a c. base * a + digit_value c) 0 s))"

text \<open>\<open>s.rstrip(';')\<close>\<close>

definition rstrip_semicolon :: "pystr \<Rightarrow> pystr" where
  "rstrip_semicolon s = rev (dropWhile (\<lambda>c. c = of_char CHR '';'') (rev s))"

text \<open>The tables \<open>_invalid_charrefs\<close> and \<open>_invalid_codepoints\<close> of the module.\<close>

definition invalid_charrefs :: "nat \<rightharpoonup> pystr" where
  "invalid_charrefs = map_of
    [(0x00, [0xFFFD]), (0x0D, [0x0D]), (0x80, [0x20AC]), (0x81, [0x81]), (0x82, [0x201A]),
     (0x83, [0x0192]), (0x84, [0x201E]), (0x85, [0x2026]), (0x86, [0x2020]), (0x87, [0x2021]),
     (0x88, [0x02C6]), (0x89, [0x2030]), (0x8A, [0x0160]), (0x8B, [0x2039]), (0x8C, [0x0152]),
     (0x8D, [0x8D]), (0x8E, [0x017D]), (0x8F, [0x8F]), (0x90, [0x90]), (0x91, [0x2018]),
     (0x92, [0x2019]), (0x93, [0x201C]), (0x94, [0x201D]), (0x95, [0x2022]), (0x96, [0x2013]),
     (0x97, [0x2014]), (0x98, [0x02DC]), (0x99, [0x2122]), (0x9A, [0x0161]), (0x9B, [0x203A]),
     (0x9C, [0x0153]), (0x9D, [0x9D]), (0x9E, [0x017E]), (0x9F, [0x0178])]"

definition invalid_codepoints :: "nat set" where
  "invalid_codepoints =
     {0x1..0x8} \<union> {0xE..0x1F} \<union> {0x7F..0x9F} \<union> {0xFDD0..0xFDEF} \<union>
     {0xB, 0xFFFE, 0xFFFF, 0x1FFFE, 0x1FFFF, 0x2FFFE, 0x2FFFF, 0x3FFFE, 0x3FFFF,
      0x4FFFE, 0x4FFFF, 0x5FFFE, 0x5FFFF, 0x6FFFE, 0x6FFFF, 0x7FFFE, 0x7FFFF,
      0x8FFFE, 0x8FFFF, 0x9FFFE, 0x9FFFF, 0xAFFFE, 0xAFFFF, 0xBFFFE, 0xBFFFF,
      0xCFFFE, 0xCFFFF, 0xDFFFE, 0xDFFFF, 0xEFFFE, 0xEFFFF, 0xFFFFE, 0xFFFFF,
      0x10FFFE, 0x10FFFF}"

text \<open>
  \<^verbatim>\<open>
  def _replace_charref(s):
      s = s.group(1)
      if s[0] == '#':
          # numeric charref
          if s[1] in 'xX':
              num = int(s[2:].rstrip(';'), 16)
          else:
              num = int(s[1:].rstrip(';'))
          if num in _invalid_charrefs:
              return _invalid_charrefs[num]
          if 0xD800 <= num <= 0xDFFF or num > 0x10FFFF:
              return '\uFFFD'
          if num in _invalid_codepoints:
              return ''
          return chr(num)
      else:
          # named charref
          if s in _html5:
              return _html5[s]
          # find the longest matching name (as defined by the standard)
          for x in range(len(s)-1, 1, -1):
              if s[:x] in _html5:
                  return _html5[s[:x]] + s[x:]
          else:
              return '&' + s
  \<close>
  \<open>s[0]\<close> and \<open>s[1]\<close> raise IndexError past the end of the string.
\<close>

definition numeric_charref :: "nat \<Rightarrow> pystr" where
  "numeric_charref num =
     (case invalid_charrefs num of
        Some r \<Rightarrow> r
      | None \<Rightarrow>
          if (0xD800 \<le> num \<and> num \<le> 0xDFFF) \<or> num > 0x10FFFF then [0xFFFD]
          else if num \<in> invalid_codepoints then []
          else [num])"

text \<open>The \<open>for\<close> loop, entered with \<open>x = len(s) - 1\<close>; it stops before \<open>x = 1\<close>.\<close>

fun longest_name :: "(pystr \<rightharpoonup> pystr) \<Rightarrow> pystr \<Rightarrow> nat \<Rightarrow> pystr" where
  "longest_name h s 0 = of_char CHR ''&'' # s"
| "longest_name h s (Suc x) =
     (if x = 0 then of_char CHR ''&'' # s
      else (case h (take (Suc x) s) of
              Some r \<Rightarrow> r @ drop (Suc x) s
            | None \<Rightarrow> longest_name h s x))"

definition replace_charref :: "(pystr \<rightharpoonup> pystr) \<Rightarrow> pystr \<Rightarrow> exn + pystr" where
  "replace_charref h s =
     (case s of
        [] \<Rightarrow> Inl IndexError
      | c # cs \<Rightarrow>
          if c = of_char CHR ''#'' then
            (case cs of
               [] \<Rightarrow> Inl IndexError
             | x # ds \<Rightarrow>
                 (case (if x = of_char CHR ''x'' \<or> x = of_char CHR ''X''
                        then py_int 16 (rstrip_semicolon ds)
                        else py_int 10 (rstrip_semicolon cs)) of
                    Inl e \<Rightarrow> Inl e
                  | Inr num \<Rightarrow> Inr (numeric_charref num)))
          else (case h s of
                  Some r \<Rightarrow> Inr r
                | None \<Rightarrow> Inr (longest_name h s (length s - 1))))"

text \<open>
  \<^verbatim>\<open>
  def unescape(s):
      if '&' not in s:
          return s
      return _charref.sub(_replace_charref, s)
  \<close>
  \<open>sub\<close> scans from the left: at an \<open>&\<close> where the expression matches, the match is
  replaced and the scan goes on behind it; any other character is copied.
\<close>

lemma opt_semicolon_length: "opt_semicolon s = (semi, rest) \<Longrightarrow> length rest \<le> length s"
  by (cases s) (auto split: if_splits)

lemma match_decimal_length: "match_decimal s = Some (g, rest) \<Longrightarrow> length rest \<le> length s"
proof -
  assume m: "match_decimal s = Some (g, rest)"
  then obtain c cs semi where s: "s = c # cs"
    and o: "opt_semicolon (dropWhile is_digit cs) = (semi, rest)"
    by (auto simp: match_decimal_def split: list.splits if_splits prod.splits)
  have "length rest \<le> length (dropWhile is_digit cs)"
    using o by (rule opt_semicolon_length)
  also have "\<dots> \<le> length cs"
    by (rule length_dropWhile_le)
  finally show ?thesis using s by simp
qed

lemma match_hex_length: "match_hex s = Some (g, rest) \<Longrightarrow> length rest \<le> length s"
proof -
  assume m: "match_hex s = Some (g, rest)"
  then obtain c x cs semi where s: "s = c # x # cs"
    and o: "opt_semicolon (dropWhile is_hexdigit cs) = (semi, rest)"
    by (auto simp: match_hex_def split: list.splits if_splits prod.splits)
  have "length rest \<le> length (dropWhile is_hexdigit cs)"
    using o by (rule opt_semicolon_length)
  also have "\<dots> \<le> length cs"
    by (rule length_dropWhile_le)
  finally show ?thesis using s by simp
qed

lemma match_named_length: "match_named s = Some (g, rest) \<Longrightarrow> length rest \<le> length s"
proof -
  assume m: "match_named s = Some (g, rest)"
  then obtain semi where
    o: "opt_semicolon (drop (length (take 32 (takeWhile is_name_char s))) s) = (semi, rest)"
    by (auto simp: match_named_def Let_def split: if_splits prod.splits)
  have "length rest \<le> length (drop (length (take 32 (takeWhile is_name_char s))) s)"
    using o by (rule opt_semicolon_length)
  then show ?thesis by simp
qed

lemma charref_match_length: "charref_match s = Some (g, rest) \<Longrightarrow> length rest \<le> length s"
  by (auto simp: charref_match_def split: option.splits
           dest: match_decimal_length match_hex_length match_named_length)

function unescape_sub :: "(pystr \<rightharpoonup> pystr) \<Rightarrow> pystr \<Rightarrow> exn + pystr" where
  "unescape_sub h [] = Inr []"
| "unescape_sub h (c # cs) =
     (if c = of_char CHR ''&'' then
        (case charref_match cs of
           None \<Rightarrow>
             (case unescape_sub h cs of Inl e \<Rightarrow> Inl e | Inr t \<Rightarrow> Inr (c # t))
         | Some (g, rest) \<Rightarrow>
             (case replace_charref h g of
                Inl e \<Rightarrow> Inl e
              | Inr r \<Rightarrow>
                  (case unescape_sub h rest of Inl e \<Rightarrow> Inl e | Inr t \<Rightarrow> Inr (r @ t))))
      else (case unescape_sub h cs of Inl e \<Rightarrow> Inl e | Inr t \<Rightarrow> Inr (c # t)))"
  by pat_completeness auto
termination
proof (relation "measure (\<lambda>(h, s). length s)")
  fix h :: "pystr \<rightharpoonup> pystr" and c :: nat and cs :: pystr and x2 g rest r
  assume "charref_match cs = Some x2" "(g, rest) = x2"
  then have "length rest \<le> length cs"
    by (auto dest: charref_match_length)
  then show "((h, rest), (h, c # cs)) \<in> measure (\<lambda>(h, s). length s)"
    by simp
qed auto

definition html_unescape :: "(pystr \<rightharpoonup> pystr) \<Rightarrow> pystr \<Rightarrow> exn + pystr" where
  "html_unescape h s =
     (if of_char CHR ''&'' \<notin> set s then Inr s else unescape_sub h s)"

section \<open>The icon table and determine_icon\<close>

type_synonym tags = "pystr \<rightharpoonup> pystr"

text \<open>An icon is the two-element list of the table: marker icon, then glyph.\<close>

type_synonym icon = "pystr \<times> pystr"

text \<open>
  \<open>ICON_MAPPING\<close> is a dict literal; iterating it gives its keys in the order written.
  The list keeps that order, and the glyphs are given by their code points.
\<close>

definition ICON_MAPPING :: "(pystr \<times> icon) list" where
  "ICON_MAPPING =
   [(u ''cuisine:pizza'', (u ''maki_restaurant-pizza'', [0x1F355])),
    (u ''amenity:bar'', (u ''bar'', [0x1F378])),
    (u ''amenity:bbq'', (u ''bbq'', [0x1F374])),
    (u ''amenity:cafe'', (u ''cafe'', [0x2615])),
    (u ''amenity:cinema'', (u ''cinema'', [0x1F3A6])),
    (u ''amenity:college'', (u ''maki_college'', [0x1F393])),
    (u ''amenity:fast_food'', (u ''fast_food'', [0x1F354])),
    (u ''amenity:food_court'', (u ''restaurant'', [0x1F37D, 0xFE0F])),
    (u ''amenity:fuel'', (u ''fuel'', [0x26FD])),
    (u ''amenity:hospital'', (u ''hospital'', [0x1F3E5])),
    (u ''amenity:ice_cream'', (u ''ice_cream'', [0x1F368])),
    (u ''amenity:kindergarten'', (u ''playground'', [0x1F9D2])),
    (u ''amenity:pharmacy'', (u ''pharmacy'', [0x1F48A])),
    (u ''amenity:place_of_worship'', (u ''place_of_worship'', [0x1F6D0])),
    (u ''amenity:pub'', (u ''pub'', [0x1F37B])),
    (u ''amenity:restaurant'', (u ''restaurant'', [0x1F37D, 0xFE0F])),
    (u ''amenity:school'', (u ''maki_school'', [0x1F3EB])),
    (u ''amenity:shelter'', (u ''shelter'', [0x2602, 0xFE0F])),
    (u ''amenity:swimming_pool'', (u ''maki_swimming'', [0x1F3CA, 0x200D, 0x2640, 0xFE0F])),
    (u ''amenity:theatre'', (u ''theatre'', [0x1F3AD])),
    (u ''amenity:university'', (u ''maki_college'', [0x1F393])),
    (u ''amenity:vending_machine'', (u ''maki_shop'', [0x1F6D2])),
    (u ''historic:memorial'', (u ''monument'', [0x1F5FF])),
    (u ''leisure:golf_course'', (u ''golf'', [0x1F3CC, 0xFE0F])),
    (u ''leisure:pitch'', (u ''maki_pitch'', [0x1F3C3])),
    (u ''leisure:sports_centre'', (u ''sports'', [0x1F93C])),
    (u ''leisure:stadium'', (u ''maki_stadium'', [0x1F3DF, 0xFE0F])),
    (u ''shop:alcohol'', (u ''alcohol'', [0x1F377])),
    (u ''shop:bakery'', (u ''bakery'', [0x1F96F])),
    (u ''shop:beauty'', (u ''beauty'', [0x1F487])),
    (u ''shop:bicycle'', (u ''bicycle'', [0x1F6B2])),
    (u ''shop:books'', (u ''library'', [0x1F4DA])),
    (u ''shop:butcher'', (u ''butcher'', [0x1F52A])),
    (u ''shop:clothes'', (u ''clothes'', [0x1F45A])),
    (u ''shop:confectionery'', (u ''confectionery'', [0x1F36C])),
    (u ''shop:convenience'', (u ''convenience'', [0x1F3EA])),
    (u ''shop:department_store'', (u ''department_store'', [0x1F3EC])),
    (u ''shop:doityourself'', (u ''diy'', [0x1F6E0, 0xFE0F])),
    (u ''shop:fishmonger'', (u ''maki_shop'', [0x1F41F])),
    (u ''shop:garden_centre'', (u ''garden-centre'', [0x1F3E1])),
    (u ''shop:general'', (u ''maki_shop'', [0x1F6D2])),
    (u ''shop:gift'', (u ''gift'', [0x1F381])),
    (u ''shop:greengrocer'', (u ''greengrocer'', [0x1F34F])),
    (u ''shop:hairdresser'', (u ''hairdresser'', [0x1F487])),
    (u ''shop:kiosk'', (u ''maki_shop'', [0x1F6D2])),
    (u ''shop:music'', (u ''music'', [0x1F3B6])),
    (u ''shop:supermarket'', (u ''supermarket'', [0x1F3EA])),
    (u ''shop:wine'', (u ''alcohol'', [0x1F377])),
    (u ''tourism:guest_house'', (u ''guest_house'', [0x1F3E0])),
    (u ''tourism:museum'', (u ''museum'', [0x1F5BC, 0xFE0F]))]"

text \<open>
  \<^verbatim>\<open>
  def determine_icon(tags):
      icon = ["maki_star-stroked", ""]
      for kv in ICON_MAPPING:
          k, v = kv.split(":")
          t = tags.get(k)
          if not t:
              continue
          t = t.split(";")[0]
          if t == v:
              icon = ICON_MAPPING[kv]
              break
      return icon
  \<close>
  The loop runs over the keys; \<open>k, v = ...\<close> raises ValueError unless the split has two
  pieces, \<open>[0]\<close> raises IndexError on an empty list, \<open>ICON_MAPPING[kv]\<close> raises KeyError
  on a missing key. \<open>not t\<close> holds for \<open>None\<close> and for the empty string.
\<close>

fun icon_loop :: "(pystr \<times> icon) list \<Rightarrow> pystr list \<Rightarrow> tags \<Rightarrow> icon \<Rightarrow> exn + icon" where
  "icon_loop tbl [] tags icon = Inr icon"
| "icon_loop tbl (kv # kvs) tags icon =
     (case py_split (of_char CHR '':'') kv of
        [k, v] \<Rightarrow>
          (case tags k of
             None \<Rightarrow> icon_loop tbl kvs tags icon
           | Some t \<Rightarrow>
               if t = [] then icon_loop tbl kvs tags icon
               else (case py_split (of_char CHR '';'') t of
                       [] \<Rightarrow> Inl IndexError
                     | t0 # _ \<Rightarrow>
                         if t0 = v
                         then (case map_of tbl kv of
                                 None \<Rightarrow> Inl KeyError
                               | Some ic \<Rightarrow> Inr ic)
                         else icon_loop tbl kvs tags icon))
      | _ \<Rightarrow> Inl ValueError)"

definition determine_icon :: "tags \<Rightarrow> exn + icon" where
  "determine_icon tags =
     icon_loop ICON_MAPPING (map fst ICON_MAPPING) tags (u ''maki_star-stroked'', [])"

section \<open>The category of a record\<close>

text \<open>The five counters of \<open>write_data\<close>.\<close>

record counts =
  n_vegan_only :: nat
  n_vegetarian_only :: nat
  n_vegan_friendly :: nat
  n_vegan_limited :: nat
  n_vegetarian_friendly :: nat

text \<open>\<open>tags.get(k, '')\<close>\<close>

definition tag_get :: "tags \<Rightarrow> pystr \<Rightarrow> pystr" where
  "tag_get tags k = (case tags k of None \<Rightarrow> [] | Some v \<Rightarrow> v)"

text \<open>
  Lines 211 to 226 of \<open>write_data\<close>: the if/elif chain that names the category and
  adds one to its counter.
\<close>

definition categorize :: "tags \<Rightarrow> counts \<Rightarrow> pystr \<times> counts" where
  "categorize tags n =
     (if tag_get tags (u ''diet:vegan'') = u ''only''
      then (u ''vegan_only'', n\<lparr>n_vegan_only := n_vegan_only n + 1\<rparr>)
      else if tag_get tags (u ''diet:vegetarian'') = u ''only''
              \<and> tag_get tags (u ''diet:vegan'') = u ''yes''
      then (u ''vegetarian_only'', n\<lparr>n_vegetarian_only := n_vegetarian_only n + 1\<rparr>)
      else if tag_get tags (u ''diet:vegan'') = u ''yes''
      then (u ''vegan_friendly'', n\<lparr>n_vegan_friendly := n_vegan_friendly n + 1\<rparr>)
      else if tag_get tags (u ''diet:vegan'') = u ''limited''
      then (u ''vegan_limited'', n\<lparr>n_vegan_limited := n_vegan_limited n + 1\<rparr>)
      else (u ''vegetarian_friendly'', n\<lparr>n_vegetarian_friendly := n_vegetarian_friendly n + 1\<rparr>))"

text \<open>The number of records counted.\<close>

definition total_count :: "counts \<Rightarrow> nat" where
  "total_count n =
     n_vegan_only n + n_vegetarian_only n + n_vegan_friendly n + n_vegan_limited n
       + n_vegetarian_friendly n"

section \<open>The environment of a run\<close>

text \<open>
  What the script takes from outside itself. \<open>html5\<close> is the table of named
  character references of \<open>html.entities\<close>; \<open>str_float\<close> is \<open>str\<close> on a float;
  \<open>TIMESTAMP\<close> is the text of \<open>datetime.datetime.now()\<close> and \<open>SCRIPTDIR\<close> the
  directory of the script, both computed when the module is loaded; \<open>encode_text\<close> is
  the encoding with which \<open>open(..., 'w')\<close> writes text; \<open>http_request\<close> answers a GET
  for a URL with a response or an exception of urllib3 (every server is asked at most once
  in a run); \<open>json_loads\<close> is \<open>json.loads(r.data.decode("utf-8"))\<close>, which raises on
  bytes that are not UTF-8 or not JSON. Its result is \<open>None\<close> for the body \<open>null\<close>, and
  otherwise the object with an \<open>elements\<close> array that the interface of the service
  describes.
\<close>

type_synonym bytes = "nat list"

datatype pyval = PNone | PBool bool | PInt int | PFloat real | PStr pystr

text \<open>
  An element of the response, as the interface gives it: \<open>id\<close> and \<open>type\<close> always,
  \<open>tags\<close> (strings to strings), \<open>lat\<close>, \<open>lon\<close> and \<open>center\<close> when present. \<open>None\<close>
  stands for a key that is absent; for \<open>lat\<close>, \<open>lon\<close> and \<open>center\<close>, which the code
  reads with \<open>get\<close>, it also stands for the value \<open>null\<close>. The parsed response is
  taken as its \<open>elements\<close> array, the only part of it the code reads.
\<close>

record center =
  c_lat :: "pyval option"
  c_lon :: "pyval option"

record element =
  e_id :: int
  e_type :: pystr
  e_tags :: "tags option"
  e_lat :: "pyval option"
  e_lon :: "pyval option"
  e_center :: "center option"

record response =
  status :: nat
  data :: bytes

record env =
  html5 :: "pystr \<rightharpoonup> pystr"
  str_float :: "real \<Rightarrow> pystr"
  TIMESTAMP :: pystr
  SCRIPTDIR :: pystr
  encode_text :: "pystr \<Rightarrow> bytes"
  http_request :: "pystr \<Rightarrow> exn + response"
  json_loads :: "bytes \<Rightarrow> exn + element list option"

text \<open>Truth value of a Python value, as \<open>not v\<close> tests it.\<close>

fun truthy :: "pyval \<Rightarrow> bool" where
  "truthy PNone = False"
| "truthy (PBool b) = b"
| "truthy (PInt i) = (i \<noteq> 0)"
| "truthy (PFloat x) = (x \<noteq> 0)"
| "truthy (PStr s) = (s \<noteq> [])"

text \<open>\<open>str\<close> on an integer, and the conversion \<open>%s\<close> of a value.\<close>

function str_nat :: "nat \<Rightarrow> pystr" where
  "str_nat n =
     (if n < 10 then [of_char CHR ''0'' + n]
      else str_nat (n div 10) @ [of_char CHR ''0'' + n mod 10])"
  by pat_completeness auto
termination
  by (relation "measure (\<lambda>n. n)") auto

definition str_int :: "int \<Rightarrow> pystr" where
  "str_int i = (if i < 0 then of_char CHR ''-'' # str_nat (nat (- i)) else str_nat (nat i))"

fun py_str :: "env \<Rightarrow> pyval \<Rightarrow> pystr" where
  "py_str env PNone = u ''None''"
| "py_str env (PBool b) = (if b then u ''True'' else u ''False'')"
| "py_str env (PInt i) = str_int i"
| "py_str env (PFloat x) = str_float env x"
| "py_str env (PStr s) = s"

section \<open>write_data: one element\<close>

text \<open>
  \<^verbatim>\<open>
  if 'name' in tags:
      name = '%s %s' % (icon[1], tags['name'])
      title = html.unescape(name)
      title = title.replace('"', '[U+201D]')
  else:
      name = '%s %s %s' % (icon[1], typ, ide)
      title = name
  \<close>
  The replacement is the right double quotation mark, code point 0x201D.
\<close>

definition name_title :: "env \<Rightarrow> icon \<Rightarrow> pystr \<Rightarrow> int \<Rightarrow> tags \<Rightarrow> exn + pystr \<times> pystr" where
  "name_title env icon typ ide tags =
     (case tags (u ''name'') of
        Some n \<Rightarrow>
          (let name = snd icon @ u '' '' @ n in
           case html_unescape (html5 env) name of
             Inl e \<Rightarrow> Inl e
           | Inr title \<Rightarrow> Inr (name, py_replace [0x22] [0x201D] title))
      | None \<Rightarrow>
          (let name = snd icon @ u '' '' @ typ @ u '' '' @ str_int ide in
           Inr (name, name)))"

text \<open>
  The popup. In the source the format strings hold \<^verbatim>\<open>\\"\<close>, that is a backslash and a
  double quote; \<open>bq\<close> is that pair. Every optional line of the popup is the same frame
  around a glyph and a text, \<open>popup_row\<close>.
\<close>

definition bq :: pystr where
  "bq = [0x5C, 0x22]"

definition popup_row :: "pystr \<Rightarrow> pystr \<Rightarrow> pystr" where
  "popup_row glyph inner =
     u ''<div class='' @ bq @ u ''popupflex-container'' @ bq @ u ''><div>'' @ glyph
       @ u ''</div><div>'' @ inner @ u ''</div></div>''"

definition popup_head :: "pystr \<Rightarrow> pystr \<Rightarrow> int \<Rightarrow> pystr" where
  "popup_head name typ ide =
     u ''<b>'' @ name @ u ''</b> <a href='' @ bq @ u ''https://openstreetmap.org/'' @ typ
       @ u ''/'' @ str_int ide @ bq @ u '' target='' @ bq @ u ''_blank'' @ bq
       @ u ''>*</a><hr/>''"

definition popup_cuisine :: "tags \<Rightarrow> pystr" where
  "popup_cuisine tags =
     (case tags (u ''cuisine'') of
        None \<Rightarrow> []
      | Some c \<Rightarrow> popup_row [0x1F469, 0x200D, 0x1F373] c)"

definition place_address :: "tags \<Rightarrow> pystr" where
  "place_address tags =
     (let a0 = [];
          a1 = (if tags (u ''addr:street'') \<noteq> None
                then a0 @ tag_get tags (u ''addr:street'') @ u '' ''
                        @ tag_get tags (u ''addr:housenumber'')
                else a0);
          a2 = (if tags (u ''addr:city'') \<noteq> None
                then (if a1 \<noteq> [] then a1 @ u ''<br/>'' else a1) @ tag_get tags (u ''addr:city'')
                else a1);
          a3 = (if tags (u ''addr:country'') \<noteq> None
                then (if a2 \<noteq> [] then a2 @ u ''<br/>'' else a2) @ tag_get tags (u ''addr:country'')
                else a2)
      in a3)"

definition popup_address :: "tags \<Rightarrow> pystr" where
  "popup_address tags =
     (if place_address tags \<noteq> [] then popup_row [0x1F4CD] (place_address tags) else [])"

text \<open>
  \<^verbatim>\<open>
  placeWebsite = ""
  if 'contact:website' in tags:
      placeWebsite = tags['contact:website']
  elif 'website' in tags:
      placeWebsite = tags['website']
  if placeWebsite != "":
      placeWebsiteWithout = placeWebsite.replace('https://', '')
      popup += '...<a href=\\"%s\\" target=\\"_blank\\">%s</a>...' % (placeWebsite, placeWebsiteWithout)
  \<close>
  and likewise for e-mail and phone. \<open>anchor\<close> is the \<open>a\<close> element of these three format
  strings: link target, then text shown.
\<close>

definition preferred :: "tags \<Rightarrow> pystr \<Rightarrow> pystr \<Rightarrow> pystr" where
  "preferred tags k1 k2 =
     (case tags k1 of
        Some v \<Rightarrow> v
      | None \<Rightarrow> (case tags k2 of Some v \<Rightarrow> v | None \<Rightarrow> []))"

definition anchor :: "pystr \<Rightarrow> pystr \<Rightarrow> pystr" where
  "anchor href shown =
     u ''<a href='' @ bq @ href @ bq @ u '' target='' @ bq @ u ''_blank'' @ bq @ u ''>''
       @ shown @ u ''</a>''"

definition popup_website :: "tags \<Rightarrow> pystr" where
  "popup_website tags =
     (let placeWebsite = preferred tags (u ''contact:website'') (u ''website'') in
      if placeWebsite \<noteq> [] then
        (let placeWebsiteWithout = py_replace (u ''https://'') [] placeWebsite in
         popup_row [0x1F310] (anchor placeWebsite placeWebsiteWithout))
      else [])"

definition popup_email :: "tags \<Rightarrow> pystr" where
  "popup_email tags =
     (let placeEmail = preferred tags (u ''contact:email'') (u ''email'') in
      if placeEmail \<noteq> [] then
        popup_row [0x1F4E7] (anchor (u ''mailto:'' @ placeEmail) placeEmail @ u ''<br/>'')
      else [])"

definition popup_phone :: "tags \<Rightarrow> pystr" where
  "popup_phone tags =
     (let placePhone = preferred tags (u ''contact:phone'') (u ''phone'') in
      if placePhone \<noteq> [] then
        popup_row [0x260E, 0xFE0F] (anchor (u ''tel:'' @ placePhone) placePhone @ u ''<br/>'')
      else [])"

definition popup_opening_hours :: "tags \<Rightarrow> pystr" where
  "popup_opening_hours tags =
     (case tags (u ''opening_hours'') of
        None \<Rightarrow> []
      | Some oh \<Rightarrow>
          popup_row [0x1F556]
            (py_replace (u ''; '') (u ''<br/>'') (py_replace [0x0D] [] (py_replace [0x0A] [] oh))))"

definition build_popup :: "pystr \<Rightarrow> pystr \<Rightarrow> int \<Rightarrow> tags \<Rightarrow> pystr" where
  "build_popup name typ ide tags =
     popup_head name typ ide @ popup_cuisine tags @ popup_address tags @ popup_website tags
       @ popup_email tags @ popup_phone tags @ popup_opening_hours tags"

text \<open>
  \<^verbatim>\<open>
  f.write('L.marker([%s,%s],{title:"%s",icon:getIcon("%s","%s")}).bindPopup("%s").addTo(%s);\n'
          % (lat, lon, title, icon[0], category, popup, category))
  \<close>
\<close>

definition marker_line ::
  "env \<Rightarrow> pyval \<Rightarrow> pyval \<Rightarrow> pystr \<Rightarrow> icon \<Rightarrow> pystr \<Rightarrow> pystr \<Rightarrow> pystr" where
  "marker_line env la lo title icon category popup =
     u ''L.marker(['' @ py_str env la @ u '','' @ py_str env lo @ u ''],{title:'' @ [0x22]
       @ title @ [0x22] @ u '',icon:getIcon('' @ [0x22] @ fst icon @ [0x22] @ u '',''
       @ [0x22] @ category @ [0x22] @ u '')}).bindPopup('' @ [0x22] @ popup @ [0x22]
       @ u '').addTo('' @ category @ u '');'' @ [0x0A]"

text \<open>
  The state of the loop of \<open>write_data\<close>: the local variables \<open>lat\<close> and \<open>lon\<close>, which
  keep their values from one element to the next and are unbound (\<open>None\<close>) until an
  element assigns them; the five counters; and the strings written to the file so far.
\<close>

record wstate =
  w_lat :: "pyval option"
  w_lon :: "pyval option"
  w_counts :: counts
  w_file :: "pystr list"

text \<open>\<open>d.get(k, None)\<close>\<close>

definition get_or_None :: "pyval option \<Rightarrow> pyval" where
  "get_or_None v = (case v of None \<Rightarrow> PNone | Some x \<Rightarrow> x)"

text \<open>
  \<^verbatim>\<open>
  if typ == 'node':
      lat = e.get('lat', None)
      lon = e.get('lon', None)
  if typ == 'way':
      center_coordinates = e.get('center', None)
      lat = center_coordinates.get('lat', None)
      lon = center_coordinates.get('lon', None)
  \<close>
  \<open>None.get\<close> raises AttributeError.
\<close>

definition resolve_coords :: "element \<Rightarrow> wstate \<Rightarrow> exn + wstate" where
  "resolve_coords e st =
     (let st1 = (if e_type e = u ''node''
                 then st\<lparr>w_lat := Some (get_or_None (e_lat e)),
                         w_lon := Some (get_or_None (e_lon e))\<rparr>
                 else st)
      in if e_type e = u ''way'' then
           (case e_center e of
              None \<Rightarrow> Inl AttributeError
            | Some c \<Rightarrow> Inr (st1\<lparr>w_lat := Some (get_or_None (c_lat c)),
                                 w_lon := Some (get_or_None (c_lon c))\<rparr>))
         else Inr st1)"

text \<open>
  \<^verbatim>\<open>
  if not lat or not lon:
      continue
  \<close>
  Reading an unbound local raises UnboundLocalError; \<open>or\<close> reads \<open>lon\<close> only when
  \<open>lat\<close> is true. The result is the pair to write, or \<open>None\<close> for \<open>continue\<close>.
\<close>

definition coords_or_skip :: "wstate \<Rightarrow> exn + (pyval \<times> pyval) option" where
  "coords_or_skip st =
     (case w_lat st of
        None \<Rightarrow> Inl UnboundLocalError
      | Some la \<Rightarrow>
          if \<not> truthy la then Inr None
          else (case w_lon st of
                  None \<Rightarrow> Inl UnboundLocalError
                | Some lo \<Rightarrow> if \<not> truthy lo then Inr None else Inr (Some (la, lo))))"

text \<open>
  \<^verbatim>\<open>
  for k in list(tags.keys()):
      tags[k] = html.escape(tags[k])
  \<close>
\<close>

definition escape_tags :: "tags \<Rightarrow> tags" where
  "escape_tags tags = (\<lambda>k. map_option html_escape (tags k))"

text \<open>The rest of the loop body, from \<open>determine_icon\<close> to the write of the marker.\<close>

definition emit_marker :: "env \<Rightarrow> element \<Rightarrow> tags \<Rightarrow> pyval \<Rightarrow> pyval \<Rightarrow> wstate \<Rightarrow> exn + wstate" where
  "emit_marker env e tags la lo st =
     (case determine_icon tags of
        Inl x \<Rightarrow> Inl x
      | Inr icon \<Rightarrow>
          (case name_title env icon (e_type e) (e_id e) tags of
             Inl x \<Rightarrow> Inl x
           | Inr (name, title) \<Rightarrow>
               (case categorize tags (w_counts st) of
                  (category, n') \<Rightarrow>
                    Inr (st\<lparr>w_counts := n',
                            w_file := w_file st @
                              [marker_line env la lo title icon category
                                 (build_popup name (e_type e) (e_id e) tags)]\<rparr>))))"

definition process_element :: "env \<Rightarrow> element \<Rightarrow> wstate \<Rightarrow> exn + wstate" where
  "process_element env e st =
     (let tags = escape_tags (case e_tags e of None \<Rightarrow> Map.empty | Some t \<Rightarrow> t) in
      case resolve_coords e st of
        Inl x \<Rightarrow> Inl x
      | Inr st1 \<Rightarrow>
          (case coords_or_skip st1 of
             Inl x \<Rightarrow> Inl x
           | Inr None \<Rightarrow> Inr st1
           | Inr (Some (la, lo)) \<Rightarrow> emit_marker env e tags la lo st1))"

section \<open>write_data: the file\<close>

text \<open>
  The file system is a map from paths to the bytes of regular files; directories and
  permissions are outside the model, so opening for writing always succeeds.
\<close>

type_synonym fs = "pystr \<rightharpoonup> bytes"

definition VEGGIEMAP_TEMPFILE :: "env \<Rightarrow> pystr" where
  "VEGGIEMAP_TEMPFILE env = SCRIPTDIR env @ u ''/js/veggiemap-data-temp.js''"

definition VEGGIEMAP_FILE :: "env \<Rightarrow> pystr" where
  "VEGGIEMAP_FILE env = SCRIPTDIR env @ u ''/js/veggiemap-data.js''"

definition VEGGIEMAP_OLDFILE :: "env \<Rightarrow> pystr" where
  "VEGGIEMAP_OLDFILE env = SCRIPTDIR env @ u ''/js/veggiemap-data_old.js''"

text \<open>
  The loop over \<open>data['elements']\<close>. An exception leaves the loop at once; the state
  returned with it holds what had been written before.
\<close>

fun write_loop :: "env \<Rightarrow> element list \<Rightarrow> wstate \<Rightarrow> exn option \<times> wstate" where
  "write_loop env [] st = (None, st)"
| "write_loop env (e # es) st =
     (case process_element env e st of
        Inl x \<Rightarrow> (Some x, st)
      | Inr st' \<Rightarrow> write_loop env es st')"

definition initial_wstate :: "env \<Rightarrow> wstate" where
  "initial_wstate env =
     \<lparr>w_lat = None, w_lon = None,
      w_counts = \<lparr>n_vegan_only = 0, n_vegetarian_only = 0, n_vegan_friendly = 0,
                  n_vegan_limited = 0, n_vegetarian_friendly = 0\<rparr>,
      w_file = [u ''// Created: '' @ TIMESTAMP env @ [0x0A],
                u ''function veggiemap_populate(markers) {'' @ [0x0A]]\<rparr>"

text \<open>
  \<^verbatim>\<open>
  f.write('let numbers = {\n n_vegan_only:%s,\n n_vegetarian_only:%s,\n n_vegan_friendly:%s,\n n_vegan_limited:%s,\n n_vegetarian_friendly:%s\n};\n' % (...))
  \<close>
\<close>

definition numbers_text :: "counts \<Rightarrow> pystr" where
  "numbers_text n =
     u ''let numbers = {'' @ [0x0A]
       @ u '' n_vegan_only:'' @ str_nat (n_vegan_only n) @ u '','' @ [0x0A]
       @ u '' n_vegetarian_only:'' @ str_nat (n_vegetarian_only n) @ u '','' @ [0x0A]
       @ u '' n_vegan_friendly:'' @ str_nat (n_vegan_friendly n) @ u '','' @ [0x0A]
       @ u '' n_vegan_limited:'' @ str_nat (n_vegan_limited n) @ u '','' @ [0x0A]
       @ u '' n_vegetarian_friendly:'' @ str_nat (n_vegetarian_friendly n) @ [0x0A]
       @ u ''};'' @ [0x0A]"

text \<open>
  \<open>write_data\<close>: \<open>open(VEGGIEMAP_TEMPFILE, 'w')\<close> empties the file, the \<open>with\<close> block
  writes into it and closes it also when an exception passes through. The result is the
  exception, if any, and the file system.
\<close>

definition write_data :: "env \<Rightarrow> element list \<Rightarrow> fs \<Rightarrow> exn option \<times> fs" where
  "write_data env elements fs =
     (case write_loop env elements (initial_wstate env) of
        (Some x, st) \<Rightarrow>
          (Some x, fs(VEGGIEMAP_TEMPFILE env \<mapsto> encode_text env (concat (w_file st))))
      | (None, st) \<Rightarrow>
          (None, fs(VEGGIEMAP_TEMPFILE env \<mapsto>
             encode_text env
               (concat (w_file st @ [u ''}'' @ [0x0A], numbers_text (w_counts st)])))))"

section \<open>get_data_osm\<close>

definition SERVERS :: "pystr list" where
  "SERVERS =
     [u ''https://lz4.overpass-api.de/api/interpreter'',
      u ''https://overpass.kumi.systems/api/interpreter'',
      u ''https://z.overpass-api.de/api/interpreter'',
      u ''http://api.openstreetmap.fr/api/interpreter'',
      u ''http://dev.overpass-api.de/api_drolbr/interpreter'',
      u ''http://overpass-api.de/api/interpreter'',
      u ''http://overpass.openstreetmap.fr/api/interpreter'']"

text \<open>
  The query string: \<open>overpass_data_out + overpass_vegan_objects +
  overpass_vegetarian_objects + overpass_out\<close>; \<open>quoted\<close> puts a text in double quotes.
\<close>

definition quoted :: "pystr \<Rightarrow> pystr" where
  "quoted s = [0x22] @ s @ [0x22]"

definition overpass_query :: pystr where
  "overpass_query =
     u ''?data=[out:json];(''
     @ u ''node['' @ quoted (u ''diet:vegan'') @ u ''~'' @ quoted (u ''yes|only|limited'') @ u ''];''
     @ u ''way['' @ quoted (u ''diet:vegan'') @ u ''~'' @ quoted (u ''yes|only|limited'') @ u ''];''
     @ u ''node['' @ quoted (u ''diet:vegetarian'') @ u ''~'' @ quoted (u ''yes|only'') @ u ''];''
     @ u ''way['' @ quoted (u ''diet:vegetarian'') @ u ''~'' @ quoted (u ''yes|only'') @ u ''];''
     @ u '');out+center;''"

text \<open>
  What a run does to the world outside, in order: a GET for a URL, \<open>time.sleep\<close>,
  opening a file for writing, a call of \<open>os.rename\<close>. (The \<open>print\<close> calls are left out.)
\<close>

datatype event = Request pystr | Sleep nat | Open_write pystr | Rename pystr pystr

text \<open>
  \<^verbatim>\<open>
  server = 0
  result = None
  while (server < len(SERVERS)) and (result is None):
      overpass_server = SERVERS[server]
      r = HTTP.request("GET", overpass_server + ...)
      if r.status == 200:
          result = json.loads(r.data.decode("utf-8"))
      elif r.status == 400:
          time.sleep(5)
      elif r.status == 429:
          time.sleep(60)
      elif r.status == 504:
          time.sleep(600)
      else:
          print("Unknown HTTP error code: ", r.status)
      server += 1
  return result
  \<close>
  The loop carries \<open>server\<close>, \<open>result\<close> and the events so far; an exception of the
  request or of the parser ends the function. After a status 200 \<open>result\<close> is what the
  parser gave, which is \<open>None\<close> again for the body \<open>null\<close>.
\<close>

function get_data_loop ::
  "env \<Rightarrow> nat \<Rightarrow> element list option \<Rightarrow> event list
     \<Rightarrow> (exn + element list option) \<times> event list" where
  "get_data_loop env server result ev =
     (if server < length SERVERS \<and> result = None then
        (let url = SERVERS ! server @ overpass_query;
             ev1 = ev @ [Request url]
         in case http_request env url of
              Inl x \<Rightarrow> (Inl x, ev1)
            | Inr r \<Rightarrow>
                if status r = 200 then
                  (case json_loads env (data r) of
                     Inl x \<Rightarrow> (Inl x, ev1)
                   | Inr d \<Rightarrow> get_data_loop env (server + 1) d ev1)
                else if status r = 400 then
                  get_data_loop env (server + 1) result (ev1 @ [Sleep 5])
                else if status r = 429 then
                  get_data_loop env (server + 1) result (ev1 @ [Sleep 60])
                else if status r = 504 then
                  get_data_loop env (server + 1) result (ev1 @ [Sleep 600])
                else get_data_loop env (server + 1) result ev1)
      else (Inr result, ev))"
  by pat_completeness auto
termination
  by (relation "measure (\<lambda>(env, server, result, ev). length SERVERS - server)") auto

definition get_data_osm :: "env \<Rightarrow> (exn + element list option) \<times> event list" where
  "get_data_osm env = get_data_loop env 0 None []"

section \<open>check_data and main\<close>

text \<open>
  \<open>os.rename(src, dst)\<close> on a POSIX system, for regular files: FileNotFoundError when
  \<open>src\<close> does not exist, else \<open>dst\<close> gets the content of \<open>src\<close> (replacing a file
  that was there) and \<open>src\<close> is gone.
\<close>

definition os_rename :: "pystr \<Rightarrow> pystr \<Rightarrow> fs \<Rightarrow> exn + fs" where
  "os_rename src dst fs =
     (case fs src of
        None \<Rightarrow> Inl FileNotFoundError
      | Some c \<Rightarrow> Inr ((fs(src := None))(dst \<mapsto> c)))"

text \<open>
  \<^verbatim>\<open>
  def check_data():
      if os.path.isfile(VEGGIEMAP_TEMPFILE):
          if os.path.getsize(VEGGIEMAP_TEMPFILE) > 250:
              os.rename(VEGGIEMAP_FILE, VEGGIEMAP_OLDFILE)
              os.rename(VEGGIEMAP_TEMPFILE, VEGGIEMAP_FILE)
          else:
              print("temp file is to small!")
      else:
          print("temp file don't exists!")
  \<close>
  The result is the exception, if any, the file system, and the calls of \<open>os.rename\<close>.
\<close>

definition check_data :: "env \<Rightarrow> fs \<Rightarrow> exn option \<times> fs \<times> event list" where
  "check_data env fs =
     (case fs (VEGGIEMAP_TEMPFILE env) of
        None \<Rightarrow> (None, fs, [])
      | Some t \<Rightarrow>
          if length t > 250 then
            (case os_rename (VEGGIEMAP_FILE env) (VEGGIEMAP_OLDFILE env) fs of
               Inl x \<Rightarrow> (Some x, fs, [Rename (VEGGIEMAP_FILE env) (VEGGIEMAP_OLDFILE env)])
             | Inr fs1 \<Rightarrow>
                 (case os_rename (VEGGIEMAP_TEMPFILE env) (VEGGIEMAP_FILE env) fs1 of
                    Inl x \<Rightarrow>
                      (Some x, fs1,
                       [Rename (VEGGIEMAP_FILE env) (VEGGIEMAP_OLDFILE env),
                        Rename (VEGGIEMAP_TEMPFILE env) (VEGGIEMAP_FILE env)])
                  | Inr fs2 \<Rightarrow>
                      (None, fs2,
                       [Rename (VEGGIEMAP_FILE env) (VEGGIEMAP_OLDFILE env),
                        Rename (VEGGIEMAP_TEMPFILE env) (VEGGIEMAP_FILE env)])))
          else (None, fs, []))"

text \<open>
  \<^verbatim>\<open>
  def main():
      osm_data = get_data_osm()
      if osm_data is not None:
          write_data(osm_data)
          check_data()
      else:
          print("A problem has occurred. The old VEGGIE_MAP was not replaced!")
  \<close>
\<close>

definition main :: "env \<Rightarrow> fs \<Rightarrow> exn option \<times> fs \<times> event list" where
  "main env fs =
     (case get_data_osm env of
        (Inl x, ev) \<Rightarrow> (Some x, fs, ev)
      | (Inr None, ev) \<Rightarrow> (None, fs, ev)
      | (Inr (Some osm_data), ev) \<Rightarrow>
          (case write_data env osm_data fs of
             (Some x, fs1) \<Rightarrow> (Some x, fs1, ev @ [Open_write (VEGGIEMAP_TEMPFILE env)])
           | (None, fs1) \<Rightarrow>
               (case check_data env fs1 of
                  (r, fs2, ev2) \<Rightarrow> (r, fs2, ev @ [Open_write (VEGGIEMAP_TEMPFILE env)] @ ev2))))"

section \<open>The icon rule of the specification\<close>

text \<open>
  The specification describes \<open>determine_icon\<close> as a table of rules in a fixed order,
  each an attribute name, an attribute value and an icon; a rule matches when the
  attribute is present and the text of its value before the first \<open>;\<close> is the rule's
  value; the first rule that matches gives the icon, and the default icon with an empty
  glyph stands when none does. The following definitions say that, on the table of the
  source, without the loop.
\<close>

definition default_icon :: icon where
  "default_icon = (u ''maki_star-stroked'', [])"

definition rule_of :: "pystr \<Rightarrow> pystr \<times> pystr" where
  "rule_of kv =
     (takeWhile (\<lambda>c. c \<noteq> of_char CHR '':'') kv,
      tl (dropWhile (\<lambda>c. c \<noteq> of_char CHR '':'') kv))"

definition before_semicolon :: "pystr \<Rightarrow> pystr" where
  "before_semicolon t = takeWhile (\<lambda>c. c \<noteq> of_char CHR '';'') t"

definition rule_matches :: "tags \<Rightarrow> pystr \<Rightarrow> bool" where
  "rule_matches tags kv =
     (case tags (fst (rule_of kv)) of
        None \<Rightarrow> False
      | Some t \<Rightarrow> before_semicolon t = snd (rule_of kv))"

definition first_matching_icon :: "tags \<Rightarrow> icon" where
  "first_matching_icon tags =
     (case find (\<lambda>(kv, ic). rule_matches tags kv) ICON_MAPPING of
        None \<Rightarrow> default_icon
      | Some (kv, ic) \<Rightarrow> ic)"

section \<open>The coordinates an element is written with\<close>

text \<open>
  \<open>coords_of\<close> is the pair the loop resolves for a node or a way (none for a way without
  \<open>center\<close>, and none for any other type); \<open>preceding_coords xs\<close> is that pair for the
  last node or way among \<open>xs\<close>.
\<close>

definition coords_of :: "element \<Rightarrow> (pyval \<times> pyval) option" where
  "coords_of e =
     (if e_type e = u ''node'' then Some (get_or_None (e_lat e), get_or_None (e_lon e))
      else if e_type e = u ''way'' then
        (case e_center e of
           None \<Rightarrow> None
         | Some c \<Rightarrow> Some (get_or_None (c_lat c), get_or_None (c_lon c)))
      else None)"

definition preceding_coords :: "element list \<Rightarrow> (pyval \<times> pyval) option" where
  "preceding_coords xs =
     (let ys = filter (\<lambda>e. e_type e = u ''node'' \<or> e_type e = u ''way'') xs
      in if ys = [] then None else coords_of (last ys))"

section \<open>The title of the specification\<close>

text \<open>
  \<open>escape_char\<close> is what \<open>html.escape\<close> makes of one character. The specification has
  the title be the name with every double quote replaced by the right double quotation
  mark, \<open>quote_to_right_quote\<close>. \<open>has_escape_entities\<close> says of a table of named
  character references that it holds the four names \<open>html.escape\<close> writes, as
  \<open>html.entities.html5\<close> does.
\<close>

definition escape_char :: "nat \<Rightarrow> pystr" where
  "escape_char c =
     (if c = of_char CHR ''&'' then u ''&amp;''
      else if c = of_char CHR ''<'' then u ''&lt;''
      else if c = of_char CHR ''>'' then u ''&gt;''
      else if c = 0x22 then u ''&quot;''
      else if c = 0x27 then u ''&#x27;''
      else [c])"

definition quote_to_right_quote :: "pystr \<Rightarrow> pystr" where
  "quote_to_right_quote s = map (\<lambda>c. if c = 0x22 then 0x201D else c) s"

definition has_escape_entities :: "(pystr \<rightharpoonup> pystr) \<Rightarrow> bool" where
  "has_escape_entities h =
     (h (u ''amp;'') = Some (u ''&'') \<and> h (u ''lt;'') = Some (u ''<'')
      \<and> h (u ''gt;'') = Some (u ''>'') \<and> h (u ''quot;'') = Some [0x22])"

section \<open>The website text of the specification\<close>

text \<open>
  The specification has the text shown for a website be its value without a leading
  \<open>https://\<close>, and otherwise unchanged.
\<close>

definition strip_leading_https :: "pystr \<Rightarrow> pystr" where
  "strip_leading_https w =
     (if take 8 w = u ''https://'' then drop 8 w else w)"

section \<open>The fetch of the specification\<close>

text \<open>
  The specification describes \<open>get_data_osm\<close> by what it does at each endpoint: the URL
  asked, and the pause that follows an answer that is not a success. \<open>attempts rs i\<close> is
  the trace of the first \<open>i\<close> endpoints when endpoint \<open>j\<close> answered \<open>rs j\<close>, no answer
  ending the fetch.
\<close>

definition request_url :: "nat \<Rightarrow> pystr" where
  "request_url i = SERVERS ! i @ overpass_query"

definition cooldown :: "nat \<Rightarrow> event list" where
  "cooldown st =
     (if st = 429 then [Sleep 60]
      else if st = 504 then [Sleep 600]
      else if st = 400 then [Sleep 5]
      else [])"

definition attempts :: "(nat \<Rightarrow> response) \<Rightarrow> nat \<Rightarrow> event list" where
  "attempts rs i = concat (map (\<lambda>j. Request (request_url j) # cooldown (status (rs j))) [0..<i])"

text \<open>An environment to run the model on: a server and the elements its answer parses to.\<close>

definition sample_env :: "(pystr \<Rightarrow> exn + response) \<Rightarrow> element list \<Rightarrow> env" where
  "sample_env http els =
     \<lparr>html5 = map_of [(u ''amp;'', u ''&''), (u ''lt;'', u ''<''), (u ''gt;'', u ''>''),
                       (u ''quot;'', [0x22])],
      str_float = (\<lambda>x. if x = 52.5 then u ''52.5'' else if x = 13.4 then u ''13.4'' else u ''0.0''),
      TIMESTAMP = u ''2024-05-01 03:00:00.000000'',
      SCRIPTDIR = u ''/srv/veggiekarte'',
      encode_text = (\<lambda>s. s),
      http_request = http,
      json_loads = (\<lambda>b. Inr (Some els))\<rparr>"

text \<open>
  The same with two servers that answer: the first with status 200 and the body
  \<open>null\<close>, every other one with status 200 and a body that parses to no elements.
\<close>

definition null_then_data_env :: env where
  "null_then_data_env =
     (sample_env (\<lambda>url. if url = request_url 0 then Inr \<lparr>status = 200, data = u ''null''\<rparr>
                         else Inr \<lparr>status = 200, data = u ''data''\<rparr>) [])
       \<lparr>json_loads := (\<lambda>b. if b = u ''null'' then Inr None else Inr (Some []))\<rparr>"

text \<open>
  Elements to run the model on: the point record of the specification's scenario, a node
  without \<open>lat\<close>, a node at latitude zero, a way without \<open>center\<close>, and a relation.
\<close>

definition sample_tags :: tags where
  "sample_tags = [u ''diet:vegan'' \<mapsto> u ''only'', u ''name'' \<mapsto> u ''Green Cafe'',
                  u ''amenity'' \<mapsto> u ''cafe'']"

definition green_cafe :: element where
  "green_cafe =
     \<lparr>e_id = 1, e_type = u ''node'', e_tags = Some sample_tags, e_lat = Some (PFloat 52.5),
      e_lon = Some (PFloat 13.4), e_center = None\<rparr>"

definition node_without_lat :: element where
  "node_without_lat =
     \<lparr>e_id = 2, e_type = u ''node'', e_tags = Some sample_tags, e_lat = None,
      e_lon = Some (PFloat 13.4), e_center = None\<rparr>"

definition node_at_zero :: element where
  "node_at_zero =
     \<lparr>e_id = 5, e_type = u ''node'', e_tags = Some sample_tags, e_lat = Some (PFloat 0),
      e_lon = Some (PFloat 13.4), e_center = None\<rparr>"

definition way_without_center :: element where
  "way_without_center =
     \<lparr>e_id = 3, e_type = u ''way'', e_tags = Some sample_tags, e_lat = None, e_lon = None,
      e_center = None\<rparr>"

definition relation_element :: element where
  "relation_element =
     \<lparr>e_id = 4, e_type = u ''relation'', e_tags = Some sample_tags, e_lat = None,
      e_lon = None, e_center = None\<rparr>"

section \<open>Facts about strings\<close>

lemma u_eq_iff [simp]: "(u a = u b) = (a = b)"
  unfolding u_def by (simp add: inj_map_eq_map inj_on_def)

lemma u_Nil [simp]: "u [] = []"
  by (simp add: u_def)

lemma u_Cons: "u (c # cs) = of_char c # u cs"
  by (simp add: u_def)

lemma u_eq_Nil_iff [simp]: "(u a = []) = (a = [])" "([] = u a) = (a = [])"
  by (auto simp: u_def)

lemma u_append: "u (a @ b) = u a @ u b"
  by (simp add: u_def)

section \<open>The category\<close>

lemma tag_get_eq_iff: "v \<noteq> [] \<Longrightarrow> (tag_get tags k = v) = (tags k = Some v)"
  by (auto simp: tag_get_def split: option.splits)

text \<open>
  C1. The category follows the first rule that applies, in the order: \<open>diet:vegan\<close> is
  \<open>only\<close>; \<open>diet:vegetarian\<close> is \<open>only\<close> and \<open>diet:vegan\<close> is \<open>yes\<close>; \<open>diet:vegan\<close> is
  \<open>yes\<close>; \<open>diet:vegan\<close> is \<open>limited\<close>; anything else. The first rule holds whatever
  the other attributes are. Every attribute set gets one of five names, the names differ
  from each other, and exactly one is added to the counters, in the counter of that name.
\<close>

theorem C1_category_first_match:
  "(tags (u ''diet:vegan'') = Some (u ''only'') \<longrightarrow>
      categorize tags n = (u ''vegan_only'', n\<lparr>n_vegan_only := n_vegan_only n + 1\<rparr>))
   \<and> (tags (u ''diet:vegan'') = Some (u ''yes'')
        \<and> tags (u ''diet:vegetarian'') = Some (u ''only'') \<longrightarrow>
      categorize tags n =
        (u ''vegetarian_only'', n\<lparr>n_vegetarian_only := n_vegetarian_only n + 1\<rparr>))
   \<and> (tags (u ''diet:vegan'') = Some (u ''yes'')
        \<and> tags (u ''diet:vegetarian'') \<noteq> Some (u ''only'') \<longrightarrow>
      categorize tags n =
        (u ''vegan_friendly'', n\<lparr>n_vegan_friendly := n_vegan_friendly n + 1\<rparr>))
   \<and> (tags (u ''diet:vegan'') = Some (u ''limited'') \<longrightarrow>
      categorize tags n =
        (u ''vegan_limited'', n\<lparr>n_vegan_limited := n_vegan_limited n + 1\<rparr>))
   \<and> (tags (u ''diet:vegan'') \<notin> {Some (u ''only''), Some (u ''yes''), Some (u ''limited'')} \<longrightarrow>
      categorize tags n =
        (u ''vegetarian_friendly'', n\<lparr>n_vegetarian_friendly := n_vegetarian_friendly n + 1\<rparr>))
   \<and> fst (categorize tags n) \<in>
        {u ''vegan_only'', u ''vegetarian_only'', u ''vegan_friendly'', u ''vegan_limited'',
         u ''vegetarian_friendly''}
   \<and> distinct [u ''vegan_only'', u ''vegetarian_only'', u ''vegan_friendly'',
                u ''vegan_limited'', u ''vegetarian_friendly'']
   \<and> total_count (snd (categorize tags n)) = total_count n + 1"
  by (simp add: categorize_def tag_get_eq_iff total_count_def)

theorem C1_category_first_match_witness:
  "categorize [u ''diet:vegan'' \<mapsto> u ''only'', u ''diet:vegetarian'' \<mapsto> u ''only'']
     \<lparr>n_vegan_only = 0, n_vegetarian_only = 0, n_vegan_friendly = 0, n_vegan_limited = 0,
      n_vegetarian_friendly = 0\<rparr>
   = (u ''vegan_only'',
      \<lparr>n_vegan_only = 1, n_vegetarian_only = 0, n_vegan_friendly = 0, n_vegan_limited = 0,
       n_vegetarian_friendly = 0\<rparr>)
   \<and> categorize [u ''diet:vegan'' \<mapsto> u ''yes'', u ''diet:vegetarian'' \<mapsto> u ''only'']
     \<lparr>n_vegan_only = 0, n_vegetarian_only = 0, n_vegan_friendly = 0, n_vegan_limited = 0,
      n_vegetarian_friendly = 0\<rparr>
   = (u ''vegetarian_only'',
      \<lparr>n_vegan_only = 0, n_vegetarian_only = 1, n_vegan_friendly = 0, n_vegan_limited = 0,
       n_vegetarian_friendly = 0\<rparr>)
   \<and> categorize [u ''diet:vegan'' \<mapsto> u ''yes'', u ''diet:vegetarian'' \<mapsto> u ''yes'']
     \<lparr>n_vegan_only = 0, n_vegetarian_only = 0, n_vegan_friendly = 0, n_vegan_limited = 0,
      n_vegetarian_friendly = 0\<rparr>
   = (u ''vegan_friendly'',
      \<lparr>n_vegan_only = 0, n_vegetarian_only = 0, n_vegan_friendly = 1, n_vegan_limited = 0,
       n_vegetarian_friendly = 0\<rparr>)
   \<and> categorize [u ''diet:vegan'' \<mapsto> u ''limited'']
     \<lparr>n_vegan_only = 0, n_vegetarian_only = 0, n_vegan_friendly = 0, n_vegan_limited = 0,
      n_vegetarian_friendly = 0\<rparr>
   = (u ''vegan_limited'',
      \<lparr>n_vegan_only = 0, n_vegetarian_only = 0, n_vegan_friendly = 0, n_vegan_limited = 1,
       n_vegetarian_friendly = 0\<rparr>)
   \<and> categorize [u ''diet:vegetarian'' \<mapsto> u ''yes'']
     \<lparr>n_vegan_only = 0, n_vegetarian_only = 0, n_vegan_friendly = 0, n_vegan_limited = 0,
      n_vegetarian_friendly = 0\<rparr>
   = (u ''vegetarian_friendly'',
      \<lparr>n_vegan_only = 0, n_vegetarian_only = 0, n_vegan_friendly = 0, n_vegan_limited = 0,
       n_vegetarian_friendly = 1\<rparr>)"
  using
    C1_category_first_match
      [of "[u ''diet:vegan'' \<mapsto> u ''only'', u ''diet:vegetarian'' \<mapsto> u ''only'']"
          "\<lparr>n_vegan_only = 0, n_vegetarian_only = 0, n_vegan_friendly = 0,
            n_vegan_limited = 0, n_vegetarian_friendly = 0\<rparr>"]
    C1_category_first_match
      [of "[u ''diet:vegan'' \<mapsto> u ''yes'', u ''diet:vegetarian'' \<mapsto> u ''only'']"
          "\<lparr>n_vegan_only = 0, n_vegetarian_only = 0, n_vegan_friendly = 0,
            n_vegan_limited = 0, n_vegetarian_friendly = 0\<rparr>"]
    C1_category_first_match
      [of "[u ''diet:vegan'' \<mapsto> u ''yes'', u ''diet:vegetarian'' \<mapsto> u ''yes'']"
          "\<lparr>n_vegan_only = 0, n_vegetarian_only = 0, n_vegan_friendly = 0,
            n_vegan_limited = 0, n_vegetarian_friendly = 0\<rparr>"]
    C1_category_first_match
      [of "[u ''diet:vegan'' \<mapsto> u ''limited'']"
          "\<lparr>n_vegan_only = 0, n_vegetarian_only = 0, n_vegan_friendly = 0,
            n_vegan_limited = 0, n_vegetarian_friendly = 0\<rparr>"]
    C1_category_first_match
      [of "[u ''diet:vegetarian'' \<mapsto> u ''yes'']"
          "\<lparr>n_vegan_only = 0, n_vegetarian_only = 0, n_vegan_friendly = 0,
            n_vegan_limited = 0, n_vegetarian_friendly = 0\<rparr>"]
  by simp

section \<open>The icon\<close>

lemma py_split_hd: "\<exists>ps. py_split sep s = takeWhile (\<lambda>c. c \<noteq> sep) s # ps"
  by (induction s) auto

lemma table_keys_split:
  "list_all (\<lambda>(kv, ic). py_split (of_char CHR '':'') kv = [fst (rule_of kv), snd (rule_of kv)]
                          \<and> snd (rule_of kv) \<noteq> []) ICON_MAPPING"
  by (simp add: ICON_MAPPING_def u_def rule_of_def)

lemma table_tl_strict_sorted: "sorted_wrt (<) (map fst (tl ICON_MAPPING))"
  unfolding ICON_MAPPING_def by (simp add: u_def sorted_wrt2_simps del: sorted_wrt.simps)

lemma table_hd_fresh: "fst (hd ICON_MAPPING) \<notin> set (map fst (tl ICON_MAPPING))"
  by (simp add: ICON_MAPPING_def)

lemma table_distinct: "distinct (map fst ICON_MAPPING)"
proof -
  have "ICON_MAPPING = hd ICON_MAPPING # tl ICON_MAPPING"
    by (simp add: ICON_MAPPING_def)
  then have "map fst ICON_MAPPING = fst (hd ICON_MAPPING) # map fst (tl ICON_MAPPING)"
    by (metis list.simps(9))
  moreover have "distinct (map fst (tl ICON_MAPPING))"
    using table_tl_strict_sorted strict_sorted_iff by blast
  ultimately show ?thesis
    using table_hd_fresh by simp
qed

text \<open>
  The loop over a tail \<open>es\<close> of a table finds the first entry of \<open>es\<close> whose rule
  matches, provided every key of \<open>es\<close> splits at its colon into a name and a value that
  is not empty.
\<close>

lemma icon_loop_find:
  assumes "distinct (map fst tbl)"
  shows "set es \<subseteq> set tbl \<Longrightarrow>
    list_all (\<lambda>(kv, ic). py_split (of_char CHR '':'') kv = [fst (rule_of kv), snd (rule_of kv)]
                            \<and> snd (rule_of kv) \<noteq> []) es \<Longrightarrow>
    icon_loop tbl (map fst es) tags d =
      Inr (case find (\<lambda>(kv, ic). rule_matches tags kv) es of
             None \<Rightarrow> d
           | Some (kv, ic) \<Rightarrow> ic)"
proof (induction es)
  case Nil
  then show ?case by simp
next
  case (Cons e es)
  obtain kv ic where e: "e = (kv, ic)" by (cases e)
  from Cons.prems e
  have sp: "py_split (of_char CHR '':'') kv = [fst (rule_of kv), snd (rule_of kv)]"
    and ne: "snd (rule_of kv) \<noteq> []" by auto
  from Cons.prems e assms have look: "map_of tbl kv = Some ic" by auto
  have IH: "icon_loop tbl (map fst es) tags d =
      Inr (case find (\<lambda>(kv, ic). rule_matches tags kv) es of
             None \<Rightarrow> d
           | Some (kv, ic) \<Rightarrow> ic)"
    using Cons by auto
  show ?case
  proof (cases "tags (fst (rule_of kv))")
    case None
    then show ?thesis using e sp IH by (simp add: rule_matches_def)
  next
    case (Some t)
    obtain ps where ps: "py_split (of_char CHR '';'') t = before_semicolon t # ps"
      unfolding before_semicolon_def using py_split_hd by blast
    show ?thesis
    proof (cases "t = []")
      case True
      then show ?thesis using e sp IH Some ne
        by (auto simp: rule_matches_def before_semicolon_def)
    next
      case False
      then show ?thesis using e sp IH Some ps look
        by (simp add: rule_matches_def)
    qed
  qed
qed

lemma determine_icon_first_match: "determine_icon tags = Inr (first_matching_icon tags)"
  unfolding determine_icon_def first_matching_icon_def default_icon_def
  by (rule icon_loop_find [OF table_distinct subset_refl table_keys_split])

lemma find_None_iff_Ball: "(find P xs = None) = (\<forall>x\<in>set xs. \<not> P x)"
  by (induction xs) auto

lemma no_match_default:
  "\<forall>kv\<in>set (map fst ICON_MAPPING). \<not> rule_matches tags kv \<Longrightarrow>
   first_matching_icon tags = default_icon"
proof -
  assume "\<forall>kv\<in>set (map fst ICON_MAPPING). \<not> rule_matches tags kv"
  then have "find (\<lambda>(kv, ic). rule_matches tags kv) ICON_MAPPING = None"
    by (auto simp: find_None_iff_Ball)
  then show ?thesis by (simp add: first_matching_icon_def)
qed

lemma pizza_first:
  "rule_matches tags (u ''cuisine:pizza'') \<Longrightarrow>
   first_matching_icon tags = (u ''maki_restaurant-pizza'', [0x1F355])"
  by (simp add: first_matching_icon_def ICON_MAPPING_def)

lemma rule_of_pizza: "rule_of (u ''cuisine:pizza'') = (u ''cuisine'', u ''pizza'')"
  by (simp add: rule_of_def u_def)

lemma rule_of_bar: "rule_of (u ''amenity:bar'') = (u ''amenity'', u ''bar'')"
  by (simp add: rule_of_def u_def)

text \<open>
  C2. \<open>determine_icon\<close> never raises and returns the icon of the first rule of the table,
  in the order of the table, whose attribute is present with a value that is the rule's
  value up to the first \<open>;\<close>. The table starts with \<open>cuisine:pizza\<close> and the keys after
  it are in alphabetical order. Attributes that match the pizza rule and the bar rule
  give the pizza icon. When no rule matches the result is the default icon with the empty
  glyph.
\<close>

theorem C2_determine_icon_first_match:
  "determine_icon tags = Inr (first_matching_icon tags)
   \<and> fst (hd ICON_MAPPING) = u ''cuisine:pizza''
   \<and> sorted (map fst (tl ICON_MAPPING))
   \<and> (tags (u ''cuisine'') = Some c \<and> before_semicolon c = u ''pizza''
        \<and> tags (u ''amenity'') = Some a \<and> before_semicolon a = u ''bar'' \<longrightarrow>
      rule_matches tags (u ''cuisine:pizza'') \<and> rule_matches tags (u ''amenity:bar'')
      \<and> determine_icon tags = Inr (u ''maki_restaurant-pizza'', [0x1F355]))
   \<and> ((\<forall>kv\<in>set (map fst ICON_MAPPING). \<not> rule_matches tags kv) \<longrightarrow>
      determine_icon tags = Inr (u ''maki_star-stroked'', []))"
proof -
  have "sorted (map fst (tl ICON_MAPPING))"
    using table_tl_strict_sorted strict_sorted_iff by blast
  moreover have "fst (hd ICON_MAPPING) = u ''cuisine:pizza''"
    by (simp add: ICON_MAPPING_def)
  moreover have "rule_matches tags (u ''cuisine:pizza'') \<and> rule_matches tags (u ''amenity:bar'')
      \<and> determine_icon tags = Inr (u ''maki_restaurant-pizza'', [0x1F355])"
    if "tags (u ''cuisine'') = Some c" "before_semicolon c = u ''pizza''"
       "tags (u ''amenity'') = Some a" "before_semicolon a = u ''bar''"
  proof -
    have "rule_matches tags (u ''cuisine:pizza'')" "rule_matches tags (u ''amenity:bar'')"
      using that by (simp_all add: rule_matches_def rule_of_pizza rule_of_bar)
    then show ?thesis
      using pizza_first by (simp add: determine_icon_first_match)
  qed
  moreover have "determine_icon tags = Inr (u ''maki_star-stroked'', [])"
    if "\<forall>kv\<in>set (map fst ICON_MAPPING). \<not> rule_matches tags kv"
    using no_match_default [OF that] by (simp add: determine_icon_first_match default_icon_def)
  ultimately show ?thesis
    using determine_icon_first_match by blast
qed

theorem C2_determine_icon_first_match_witness:
  "determine_icon [u ''cuisine'' \<mapsto> u ''pizza;kebab'', u ''amenity'' \<mapsto> u ''bar'']
     = Inr (u ''maki_restaurant-pizza'', [0x1F355])
   \<and> rule_matches [u ''cuisine'' \<mapsto> u ''pizza;kebab'', u ''amenity'' \<mapsto> u ''bar'']
        (u ''amenity:bar'')
   \<and> determine_icon Map.empty = Inr (u ''maki_star-stroked'', [])"
proof -
  let ?t = "[u ''cuisine'' \<mapsto> u ''pizza;kebab'', u ''amenity'' \<mapsto> u ''bar'']"
  have h1: "?t (u ''cuisine'') = Some (u ''pizza;kebab'')" by simp
  have h2: "before_semicolon (u ''pizza;kebab'') = u ''pizza''"
    by (simp add: before_semicolon_def u_def)
  have h3: "?t (u ''amenity'') = Some (u ''bar'')" by simp
  have h4: "before_semicolon (u ''bar'') = u ''bar''"
    by (simp add: before_semicolon_def u_def)
  have h5: "\<forall>kv\<in>set (map fst ICON_MAPPING). \<not> rule_matches Map.empty kv"
    by (simp add: rule_matches_def)
  have "determine_icon ?t = Inr (u ''maki_restaurant-pizza'', [0x1F355])
        \<and> rule_matches ?t (u ''amenity:bar'')"
    using C2_determine_icon_first_match [of ?t "u ''pizza;kebab''" "u ''bar''"] h1 h2 h3 h4
    by blast
  moreover have "determine_icon Map.empty = Inr (u ''maki_star-stroked'', [])"
    using C2_determine_icon_first_match [of Map.empty "[]" "[]"] h5 by blast
  ultimately show ?thesis by blast
qed

section \<open>The fetch\<close>

declare get_data_loop.simps [simp del]

lemma loop_exhausted: "get_data_loop env (length SERVERS) None ev = (Inr None, ev)"
  by (subst get_data_loop.simps) simp

lemma loop_found: "get_data_loop env k (Some d) ev = (Inr (Some d), ev)"
  by (subst get_data_loop.simps) simp

lemma loop_step_fail:
  assumes "k < length SERVERS" "http_request env (request_url k) = Inr r" "status r \<noteq> 200"
  shows "get_data_loop env k None ev =
         get_data_loop env (Suc k) None (ev @ Request (request_url k) # cooldown (status r))"
  using assms by (subst get_data_loop.simps) (simp add: request_url_def cooldown_def Let_def)

lemma loop_step_200:
  assumes "k < length SERVERS" "http_request env (request_url k) = Inr r" "status r = 200"
  shows "get_data_loop env k None ev =
         (case json_loads env (data r) of
            Inl x \<Rightarrow> (Inl x, ev @ [Request (request_url k)])
          | Inr None \<Rightarrow> get_data_loop env (Suc k) None (ev @ [Request (request_url k)])
          | Inr (Some d) \<Rightarrow> (Inr (Some d), ev @ [Request (request_url k)]))"
  using assms
  by (subst get_data_loop.simps)
     (simp add: request_url_def Let_def loop_found split: sum.splits option.splits)

lemma loop_step_no_result:
  assumes "k < length SERVERS" "http_request env (request_url k) = Inr r"
    and "status r \<noteq> 200 \<or> json_loads env (data r) = Inr None"
  shows "get_data_loop env k None ev =
         get_data_loop env (Suc k) None (ev @ Request (request_url k) # cooldown (status r))"
proof (cases "status r = 200")
  case True
  then have "json_loads env (data r) = Inr None" using assms(3) by simp
  then show ?thesis
    using loop_step_200 [OF assms(1,2) True, of ev] True by (simp add: cooldown_def)
next
  case False
  then show ?thesis using assms(1,2) by (rule loop_step_fail [rotated 2])
qed

lemma loop_no_result_prefix:
  assumes "i \<le> length SERVERS"
    and "\<forall>j<i. http_request env (request_url j) = Inr (rs j)
               \<and> (status (rs j) \<noteq> 200 \<or> json_loads env (data (rs j)) = Inr None)"
  shows "get_data_loop env 0 None [] = get_data_loop env i None (attempts rs i)"
  using assms
proof (induction i)
  case 0
  then show ?case by (simp add: attempts_def)
next
  case (Suc i)
  then have IH: "get_data_loop env 0 None [] = get_data_loop env i None (attempts rs i)"
    by simp
  have "get_data_loop env i None (attempts rs i) =
        get_data_loop env (Suc i) None
          (attempts rs i @ Request (request_url i) # cooldown (status (rs i)))"
    using Suc.prems by (intro loop_step_no_result) auto
  also have "attempts rs i @ Request (request_url i) # cooldown (status (rs i)) = attempts rs (Suc i)"
    by (simp add: attempts_def)
  finally show ?case using IH by simp
qed

lemma request_url_inj: "i < length SERVERS \<Longrightarrow> j < length SERVERS \<Longrightarrow>
  (request_url i = request_url j) = (i = j)"
proof -
  have d: "distinct SERVERS" by (simp add: SERVERS_def)
  assume "i < length SERVERS" "j < length SERVERS"
  then show ?thesis
    using d by (simp add: request_url_def nth_eq_iff_index_eq)
qed

lemma null_then_data_env_facts:
  "http_request null_then_data_env (request_url 0) = Inr \<lparr>status = 200, data = u ''null''\<rparr>"
  "http_request null_then_data_env (request_url 1) = Inr \<lparr>status = 200, data = u ''data''\<rparr>"
  "json_loads null_then_data_env (u ''null'') = Inr None"
  "json_loads null_then_data_env (u ''data'') = Inr (Some [])"
proof -
  have "length SERVERS = 7" by (simp add: SERVERS_def)
  then have "request_url 1 \<noteq> request_url 0"
    using request_url_inj [of 1 0] by simp
  then show
    "http_request null_then_data_env (request_url 0) = Inr \<lparr>status = 200, data = u ''null''\<rparr>"
    "http_request null_then_data_env (request_url 1) = Inr \<lparr>status = 200, data = u ''data''\<rparr>"
    "json_loads null_then_data_env (u ''null'') = Inr None"
    "json_loads null_then_data_env (u ''data'') = Inr (Some [])"
    by (simp_all add: null_then_data_env_def sample_env_def)
qed

text \<open>
  The first server answers with status 200 and the body \<open>null\<close>: the function does not
  return there but asks the second server, and returns what that one sent.
\<close>

theorem C3_null_body_asks_next_counterexample:
  "http_request null_then_data_env (request_url 0) = Inr \<lparr>status = 200, data = u ''null''\<rparr>
   \<and> get_data_osm null_then_data_env
       = (Inr (Some []), [Request (request_url 0), Request (request_url 1)])"
proof -
  have len: "0 < length SERVERS" "1 < length SERVERS" by (simp_all add: SERVERS_def)
  have "get_data_loop null_then_data_env 0 None []
          = get_data_loop null_then_data_env (Suc 0) None [Request (request_url 0)]"
    using loop_step_200 [OF len(1) null_then_data_env_facts(1), of "[]"]
    by (simp add: null_then_data_env_facts)
  also have "\<dots> = (Inr (Some []), [Request (request_url 0), Request (request_url 1)])"
    using loop_step_200 [OF len(2) null_then_data_env_facts(2), of "[Request (request_url 0)]"]
    by (simp add: null_then_data_env_facts)
  finally show ?thesis
    by (simp add: get_data_osm_def null_then_data_env_facts)
qed

text \<open>
  C3, as the code has it. \<open>get_data_osm\<close> asks the endpoints in the order of the list.
  An endpoint gives no result when its status is not 200, or when its status is 200 and
  its body is \<open>null\<close>. After \<open>i\<close> endpoints without a result the trace is, for each in
  turn, its request followed by a sleep of 60 after status 429, of 600 after 504, of 5
  after 400, and by nothing after any other status. If the next endpoint answers 200 with
  a body that is not \<open>null\<close>, the function ends there: the parsed body is returned and
  the trace ends with that request, no further endpoint being asked; an exception of the
  parser is raised at that point. If all endpoints are exhausted without a result the
  function returns \<open>None\<close>.
\<close>

theorem C3_get_data_osm_failover:
  assumes "i \<le> length SERVERS"
    and "\<forall>j<i. http_request env (request_url j) = Inr (rs j)
               \<and> (status (rs j) \<noteq> 200 \<or> json_loads env (data (rs j)) = Inr None)"
  shows "(i < length SERVERS \<and> http_request env (request_url i) = Inr r \<and> status r = 200
            \<and> json_loads env (data r) = Inr (Some d) \<longrightarrow>
            get_data_osm env = (Inr (Some d), attempts rs i @ [Request (request_url i)]))
         \<and> (i < length SERVERS \<and> http_request env (request_url i) = Inr r \<and> status r = 200
            \<and> json_loads env (data r) = Inl x \<longrightarrow>
            get_data_osm env = (Inl x, attempts rs i @ [Request (request_url i)]))
         \<and> (i = length SERVERS \<longrightarrow> get_data_osm env = (Inr None, attempts rs i))
         \<and> attempts rs i =
             concat (map (\<lambda>j. Request (SERVERS ! j @ overpass_query) #
                               (if status (rs j) = 429 then [Sleep 60]
                                else if status (rs j) = 504 then [Sleep 600]
                                else if status (rs j) = 400 then [Sleep 5]
                                else [])) [0..<i])"
proof -
  have pre: "get_data_osm env = get_data_loop env i None (attempts rs i)"
    unfolding get_data_osm_def using assms by (rule loop_no_result_prefix)
  have a: "get_data_osm env = (Inr (Some d), attempts rs i @ [Request (request_url i)])"
    if "i < length SERVERS" "http_request env (request_url i) = Inr r" "status r = 200"
       "json_loads env (data r) = Inr (Some d)"
    using pre loop_step_200 [OF that(1,2,3)] that(4) by simp
  have a': "get_data_osm env = (Inl x, attempts rs i @ [Request (request_url i)])"
    if "i < length SERVERS" "http_request env (request_url i) = Inr r" "status r = 200"
       "json_loads env (data r) = Inl x"
    using pre loop_step_200 [OF that(1,2,3)] that(4) by simp
  have b: "get_data_osm env = (Inr None, attempts rs i)" if "i = length SERVERS"
    using pre that loop_exhausted by simp
  have c: "attempts rs i =
             concat (map (\<lambda>j. Request (SERVERS ! j @ overpass_query) #
                               (if status (rs j) = 429 then [Sleep 60]
                                else if status (rs j) = 504 then [Sleep 600]
                                else if status (rs j) = 400 then [Sleep 5]
                                else [])) [0..<i])"
    by (simp add: attempts_def cooldown_def request_url_def)
  show ?thesis using a a' b c by blast
qed

theorem C3_get_data_osm_failover_witness:
  "get_data_osm
     (sample_env (\<lambda>url. if url = request_url 1 then Inr \<lparr>status = 200, data = []\<rparr>
                         else Inr \<lparr>status = 429, data = []\<rparr>) [])
   = (Inr (Some []), [Request (request_url 0), Sleep 60, Request (request_url 1)])
   \<and> fst (get_data_osm (sample_env (\<lambda>url. Inr \<lparr>status = 504, data = []\<rparr>) [])) = Inr None
   \<and> fst (get_data_osm null_then_data_env) = Inr (Some [])"
proof -
  let ?e1 = "sample_env (\<lambda>url. if url = request_url 1 then Inr \<lparr>status = 200, data = []\<rparr>
                         else Inr \<lparr>status = 429, data = []\<rparr>) []"
  let ?e2 = "sample_env (\<lambda>url. Inr \<lparr>status = 504, data = []\<rparr>) []"
  have len: "length SERVERS = 7" by (simp add: SERVERS_def)
  have ne: "request_url 0 \<noteq> request_url 1"
    using request_url_inj [of 0 1] len by simp
  have h1: "\<forall>j<1. http_request ?e1 (request_url j) = Inr \<lparr>status = 429, data = []\<rparr>
              \<and> (status \<lparr>status = 429, data = []\<rparr> \<noteq> 200
                 \<or> json_loads ?e1 (data \<lparr>status = 429, data = []\<rparr>) = Inr None)"
    using ne by (simp add: sample_env_def)
  have h2: "http_request ?e1 (request_url 1) = Inr \<lparr>status = 200, data = []\<rparr>"
    "json_loads ?e1 (data \<lparr>status = 200, data = []\<rparr>) = Inr (Some [])"
    by (simp_all add: sample_env_def)
  have h3: "\<forall>j<7. http_request ?e2 (request_url j) = Inr \<lparr>status = 504, data = []\<rparr>
              \<and> (status \<lparr>status = 504, data = []\<rparr> \<noteq> 200
                 \<or> json_loads ?e2 (data \<lparr>status = 504, data = []\<rparr>) = Inr None)"
    by (simp add: sample_env_def)
  have h4: "\<forall>j<1. http_request null_then_data_env (request_url j)
                 = Inr \<lparr>status = 200, data = u ''null''\<rparr>
              \<and> (status \<lparr>status = 200, data = u ''null''\<rparr> \<noteq> 200
                 \<or> json_loads null_then_data_env (data \<lparr>status = 200, data = u ''null''\<rparr>)
                    = Inr None)"
    by (simp add: null_then_data_env_facts)
  have h5: "http_request null_then_data_env (request_url 1) = Inr \<lparr>status = 200, data = u ''data''\<rparr>"
    by (rule null_then_data_env_facts(2))
  have h6: "json_loads null_then_data_env (data \<lparr>status = 200, data = u ''data''\<rparr>)
              = Inr (Some [])"
    by (simp add: null_then_data_env_facts(4))
  have a: "get_data_osm ?e1 =
      (Inr (Some []), [Request (request_url 0), Sleep 60, Request (request_url 1)])"
    using C3_get_data_osm_failover
            [where i = 1 and env = ?e1 and rs = "\<lambda>j. \<lparr>status = 429, data = []\<rparr>"
               and r = "\<lparr>status = 200, data = []\<rparr>" and d = "[]"]
          h1 h2 len
    by (simp add: request_url_def)
  have b: "fst (get_data_osm ?e2) = Inr None"
    using C3_get_data_osm_failover
            [where i = 7 and env = ?e2 and rs = "\<lambda>j. \<lparr>status = 504, data = []\<rparr>"]
          h3 len
    by simp
  have c: "fst (get_data_osm null_then_data_env) = Inr (Some [])"
    using C3_get_data_osm_failover
            [where i = 1 and env = null_then_data_env
               and rs = "\<lambda>j. \<lparr>status = 200, data = u ''null''\<rparr>"
               and r = "\<lparr>status = 200, data = u ''data''\<rparr>" and d = "[]"]
          h4 h5 h6 len
    by simp
  show ?thesis using a b c by blast
qed

lemma paths_distinct:
  "VEGGIEMAP_TEMPFILE env \<noteq> VEGGIEMAP_FILE env"
  "VEGGIEMAP_TEMPFILE env \<noteq> VEGGIEMAP_OLDFILE env"
  "VEGGIEMAP_FILE env \<noteq> VEGGIEMAP_OLDFILE env"
  "VEGGIEMAP_FILE env \<noteq> VEGGIEMAP_TEMPFILE env"
  "VEGGIEMAP_OLDFILE env \<noteq> VEGGIEMAP_TEMPFILE env"
  "VEGGIEMAP_OLDFILE env \<noteq> VEGGIEMAP_FILE env"
  by (simp_all add: VEGGIEMAP_TEMPFILE_def VEGGIEMAP_FILE_def VEGGIEMAP_OLDFILE_def)

lemma attempts_events:
  "\<forall>e\<in>set (attempts rs i). (\<exists>url. e = Request url) \<or> (\<exists>t. e = Sleep t)"
  by (auto simp: attempts_def cooldown_def split: if_splits)

lemma get_data_osm_all_failed:
  assumes "\<forall>j<length SERVERS. http_request env (request_url j) = Inr (rs j) \<and> status (rs j) \<noteq> 200"
  shows "get_data_osm env = (Inr None, attempts rs (length SERVERS))"
proof -
  have "get_data_osm env = get_data_loop env (length SERVERS) None (attempts rs (length SERVERS))"
    unfolding get_data_osm_def using assms by (intro loop_no_result_prefix) auto
  then show ?thesis by (simp add: loop_exhausted)
qed

text \<open>
  C4. When every endpoint answers with a status other than 200, the fetch returns \<open>None\<close>
  and \<open>main\<close> leaves the file system as it was: the only events of the run are requests
  and sleeps, so no file is opened for writing and \<open>os.rename\<close> is not called.
\<close>

theorem C4_failed_fetch_touches_no_file:
  assumes "\<forall>j<length SERVERS. http_request env (request_url j) = Inr (rs j) \<and> status (rs j) \<noteq> 200"
  shows "fst (get_data_osm env) = Inr None
         \<and> main env fs = (None, fs, snd (get_data_osm env))
         \<and> (\<forall>e\<in>set (snd (get_data_osm env)). (\<exists>url. e = Request url) \<or> (\<exists>t. e = Sleep t))"
proof -
  have g: "get_data_osm env = (Inr None, attempts rs (length SERVERS))"
    using assms by (rule get_data_osm_all_failed)
  then have "main env fs = (None, fs, snd (get_data_osm env))"
    by (simp add: main_def)
  then show ?thesis using g attempts_events by simp
qed

theorem C4_failed_fetch_touches_no_file_witness:
  "fst (main (sample_env (\<lambda>url. Inr \<lparr>status = 504, data = []\<rparr>) [])
         [VEGGIEMAP_FILE (sample_env (\<lambda>url. Inr \<lparr>status = 504, data = []\<rparr>) []) \<mapsto> [1, 2, 3]])
     = None
   \<and> fst (snd (main (sample_env (\<lambda>url. Inr \<lparr>status = 504, data = []\<rparr>) [])
         [VEGGIEMAP_FILE (sample_env (\<lambda>url. Inr \<lparr>status = 504, data = []\<rparr>) []) \<mapsto> [1, 2, 3]]))
     = [VEGGIEMAP_FILE (sample_env (\<lambda>url. Inr \<lparr>status = 504, data = []\<rparr>) []) \<mapsto> [1, 2, 3]]"
proof -
  let ?e = "sample_env (\<lambda>url. Inr \<lparr>status = 504, data = []\<rparr>) []"
  have h: "\<forall>j<length SERVERS. http_request ?e (request_url j) = Inr \<lparr>status = 504, data = []\<rparr>
              \<and> status \<lparr>status = 504, data = []\<rparr> \<noteq> 200"
    by (simp add: sample_env_def)
  show ?thesis
    using C4_failed_fetch_touches_no_file
            [of ?e "\<lambda>j. \<lparr>status = 504, data = []\<rparr>" "[VEGGIEMAP_FILE ?e \<mapsto> [1, 2, 3]]"] h
    by simp
qed

section \<open>The promotion of the file\<close>

lemma write_data_only_temp:
  "p \<noteq> VEGGIEMAP_TEMPFILE env \<Longrightarrow> snd (write_data env els fs) p = fs p"
  by (simp add: write_data_def split: prod.splits option.splits)

text \<open>
  What \<open>check_data\<close> does where it does not raise. When the temporary file is missing or
  has at most 250 bytes, it renames nothing and leaves every file as it was; a run of
  \<open>main\<close> whose temporary file comes out that small leaves the active and the previous
  file as they were before the run, the temporary file staying in place. When the
  temporary file has more than 250 bytes and an active file exists, the active file
  becomes the previous file (replacing an older one) and the temporary file becomes the
  active file.
\<close>

lemma check_data_promotion:
  "((fs (VEGGIEMAP_TEMPFILE env) = None
      \<or> (\<exists>t. fs (VEGGIEMAP_TEMPFILE env) = Some t \<and> length t \<le> 250)) \<longrightarrow>
       check_data env fs = (None, fs, []))
   \<and> (fs (VEGGIEMAP_TEMPFILE env) = Some t \<and> length t > 250
        \<and> fs (VEGGIEMAP_FILE env) = Some a \<longrightarrow>
       check_data env fs =
         (None,
          (\<lambda>p. if p = VEGGIEMAP_FILE env then Some t
                else if p = VEGGIEMAP_OLDFILE env then Some a
                else if p = VEGGIEMAP_TEMPFILE env then None
                else fs p),
          [Rename (VEGGIEMAP_FILE env) (VEGGIEMAP_OLDFILE env),
           Rename (VEGGIEMAP_TEMPFILE env) (VEGGIEMAP_FILE env)]))
   \<and> (get_data_osm env = (Inr (Some els), ev) \<and> write_data env els fs = (None, fs1)
        \<and> fs1 (VEGGIEMAP_TEMPFILE env) = Some t \<and> length t \<le> 250 \<longrightarrow>
       main env fs = (None, fs1, ev @ [Open_write (VEGGIEMAP_TEMPFILE env)])
       \<and> fs1 (VEGGIEMAP_FILE env) = fs (VEGGIEMAP_FILE env)
       \<and> fs1 (VEGGIEMAP_OLDFILE env) = fs (VEGGIEMAP_OLDFILE env))"
proof -
  have a: "check_data env fs = (None, fs, [])"
    if "fs (VEGGIEMAP_TEMPFILE env) = None
        \<or> (\<exists>t. fs (VEGGIEMAP_TEMPFILE env) = Some t \<and> length t \<le> 250)"
    using that by (auto simp: check_data_def)
  have b: "check_data env fs =
         (None,
          (\<lambda>p. if p = VEGGIEMAP_FILE env then Some t
                else if p = VEGGIEMAP_OLDFILE env then Some a
                else if p = VEGGIEMAP_TEMPFILE env then None
                else fs p),
          [Rename (VEGGIEMAP_FILE env) (VEGGIEMAP_OLDFILE env),
           Rename (VEGGIEMAP_TEMPFILE env) (VEGGIEMAP_FILE env)])"
    if "fs (VEGGIEMAP_TEMPFILE env) = Some t" "length t > 250" "fs (VEGGIEMAP_FILE env) = Some a"
    using that by (auto simp: check_data_def os_rename_def paths_distinct fun_eq_iff)
  have d: "main env fs = (None, fs1, ev @ [Open_write (VEGGIEMAP_TEMPFILE env)])
       \<and> fs1 (VEGGIEMAP_FILE env) = fs (VEGGIEMAP_FILE env)
       \<and> fs1 (VEGGIEMAP_OLDFILE env) = fs (VEGGIEMAP_OLDFILE env)"
    if g: "get_data_osm env = (Inr (Some els), ev)" and w: "write_data env els fs = (None, fs1)"
      and t: "fs1 (VEGGIEMAP_TEMPFILE env) = Some t" "length t \<le> 250"
  proof -
    have "check_data env fs1 = (None, fs1, [])"
      using t by (auto simp: check_data_def)
    then have "main env fs = (None, fs1, ev @ [Open_write (VEGGIEMAP_TEMPFILE env)])"
      using g w by (simp add: main_def)
    moreover have "fs1 (VEGGIEMAP_FILE env) = fs (VEGGIEMAP_FILE env)"
      using write_data_only_temp [of "VEGGIEMAP_FILE env" env els fs] w
      by (simp add: paths_distinct)
    moreover have "fs1 (VEGGIEMAP_OLDFILE env) = fs (VEGGIEMAP_OLDFILE env)"
      using write_data_only_temp [of "VEGGIEMAP_OLDFILE env" env els fs] w
      by (simp add: paths_distinct)
    ultimately show ?thesis by simp
  qed
  show ?thesis using a b d by blast
qed

lemma get_data_osm_first_ok:
  "get_data_osm (sample_env (\<lambda>url. Inr \<lparr>status = 200, data = []\<rparr>) els)
     = (Inr (Some els), [Request (request_url 0)])"
proof -
  have "0 < length SERVERS" by (simp add: SERVERS_def)
  then show ?thesis
    unfolding get_data_osm_def
    using loop_step_200 [of 0 "sample_env (\<lambda>url. Inr \<lparr>status = 200, data = []\<rparr>) els"
                          "\<lparr>status = 200, data = []\<rparr>" "[]"]
    by (simp add: sample_env_def)
qed

lemma str_nat_0: "str_nat 0 = u ''0''"
  by (simp add: u_def)

lemma check_data_promotion_example:
  "check_data (sample_env (\<lambda>url. Inr \<lparr>status = 200, data = []\<rparr>) [])
     [VEGGIEMAP_FILE (sample_env (\<lambda>url. Inr \<lparr>status = 200, data = []\<rparr>) []) \<mapsto> [1]]
   = (None,
      [VEGGIEMAP_FILE (sample_env (\<lambda>url. Inr \<lparr>status = 200, data = []\<rparr>) []) \<mapsto> [1]], [])
   \<and> fst (snd (check_data (sample_env (\<lambda>url. Inr \<lparr>status = 200, data = []\<rparr>) [])
        [VEGGIEMAP_TEMPFILE (sample_env (\<lambda>url. Inr \<lparr>status = 200, data = []\<rparr>) [])
           \<mapsto> replicate 251 7,
         VEGGIEMAP_FILE (sample_env (\<lambda>url. Inr \<lparr>status = 200, data = []\<rparr>) []) \<mapsto> [1],
         VEGGIEMAP_OLDFILE (sample_env (\<lambda>url. Inr \<lparr>status = 200, data = []\<rparr>) []) \<mapsto> [2]]))
       (VEGGIEMAP_OLDFILE (sample_env (\<lambda>url. Inr \<lparr>status = 200, data = []\<rparr>) []))
     = Some [1]
   \<and> fst (snd (check_data (sample_env (\<lambda>url. Inr \<lparr>status = 200, data = []\<rparr>) [])
        [VEGGIEMAP_TEMPFILE (sample_env (\<lambda>url. Inr \<lparr>status = 200, data = []\<rparr>) [])
           \<mapsto> replicate 251 7,
         VEGGIEMAP_FILE (sample_env (\<lambda>url. Inr \<lparr>status = 200, data = []\<rparr>) []) \<mapsto> [1],
         VEGGIEMAP_OLDFILE (sample_env (\<lambda>url. Inr \<lparr>status = 200, data = []\<rparr>) []) \<mapsto> [2]]))
       (VEGGIEMAP_FILE (sample_env (\<lambda>url. Inr \<lparr>status = 200, data = []\<rparr>) []))
     = Some (replicate 251 7)
   \<and> fst (snd (main (sample_env (\<lambda>url. Inr \<lparr>status = 200, data = []\<rparr>) [])
        [VEGGIEMAP_FILE (sample_env (\<lambda>url. Inr \<lparr>status = 200, data = []\<rparr>) []) \<mapsto> [1]]))
       (VEGGIEMAP_FILE (sample_env (\<lambda>url. Inr \<lparr>status = 200, data = []\<rparr>) []))
     = Some [1]"
proof -
  let ?e = "sample_env (\<lambda>url. Inr \<lparr>status = 200, data = []\<rparr>) []"
  let ?T = "VEGGIEMAP_TEMPFILE ?e" let ?F = "VEGGIEMAP_FILE ?e" let ?O = "VEGGIEMAP_OLDFILE ?e"
  note pd = paths_distinct [of ?e]
  have a: "check_data ?e [?F \<mapsto> [1]] = (None, [?F \<mapsto> [1]], [])"
    using check_data_promotion [of "[?F \<mapsto> [1]]" ?e] pd by simp
  let ?fs2 = "[?T \<mapsto> replicate 251 7, ?F \<mapsto> [1], ?O \<mapsto> [2]]"
  have b: "fst (snd (check_data ?e ?fs2)) ?O = Some [1]"
    "fst (snd (check_data ?e ?fs2)) ?F = Some (replicate 251 7)"
    using check_data_promotion [of ?fs2 ?e "replicate 251 7" "[1]"] pd by simp_all
  let ?txt = "concat (w_file (initial_wstate ?e) @ [u ''}'' @ [0x0A],
                numbers_text (w_counts (initial_wstate ?e))])"
  let ?fs1 = "[?F \<mapsto> [1], ?T \<mapsto> ?txt]"
  have w: "write_data ?e [] [?F \<mapsto> [1]] = (None, ?fs1)"
    by (simp add: write_data_def sample_env_def)
  have len: "length ?txt \<le> 250"
    by (simp add: initial_wstate_def numbers_text_def sample_env_def str_nat_0 u_def)
  have d: "fst (snd (main ?e [?F \<mapsto> [1]])) ?F = Some [1]"
    using check_data_promotion
            [of "[?F \<mapsto> [1]]" ?e ?txt _ "[]" "[Request (request_url 0)]" ?fs1]
          get_data_osm_first_ok [of "[]"] w len pd
    by simp
  show ?thesis using a b d by blast
qed

text \<open>
  C5 says that a temporary file of more than 250 bytes is promoted. The code does not do
  that when no active file exists: \<open>check_data\<close> tests that the temporary file exists
  but not the active one, the first \<open>os.rename\<close> raises FileNotFoundError, and every
  file stays where it was, the temporary file not becoming the active one.
\<close>

theorem C5_no_active_file_raises:
  assumes "fs (VEGGIEMAP_TEMPFILE env) = Some t" and "length t > 250"
    and "fs (VEGGIEMAP_FILE env) = None"
  shows "check_data env fs =
           (Some FileNotFoundError, fs, [Rename (VEGGIEMAP_FILE env) (VEGGIEMAP_OLDFILE env)])"
  using assms by (simp add: check_data_def os_rename_def)

theorem C5_no_active_file_raises_witness:
  "check_data (sample_env (\<lambda>url. Inl RequestError) [])
        [VEGGIEMAP_TEMPFILE (sample_env (\<lambda>url. Inl RequestError) []) \<mapsto> replicate 251 0]
      = (Some FileNotFoundError,
         [VEGGIEMAP_TEMPFILE (sample_env (\<lambda>url. Inl RequestError) []) \<mapsto> replicate 251 0],
         [Rename (VEGGIEMAP_FILE (sample_env (\<lambda>url. Inl RequestError) []))
                 (VEGGIEMAP_OLDFILE (sample_env (\<lambda>url. Inl RequestError) []))])
   \<and> [VEGGIEMAP_TEMPFILE (sample_env (\<lambda>url. Inl RequestError) []) \<mapsto> replicate 251 (0::nat)]
        (VEGGIEMAP_FILE (sample_env (\<lambda>url. Inl RequestError) [])) = None"
proof -
  let ?e = "sample_env (\<lambda>url. Inl RequestError) []"
  let ?fs = "[VEGGIEMAP_TEMPFILE ?e \<mapsto> replicate 251 (0::nat)]"
  have t: "?fs (VEGGIEMAP_TEMPFILE ?e) = Some (replicate 251 0)" by simp
  have l: "length (replicate 251 (0::nat)) > 250" by simp
  have f: "?fs (VEGGIEMAP_FILE ?e) = None" by (simp add: paths_distinct)
  have c: "check_data ?e ?fs =
             (Some FileNotFoundError, ?fs,
              [Rename (VEGGIEMAP_FILE ?e) (VEGGIEMAP_OLDFILE ?e)])"
    by (rule C5_no_active_file_raises [OF t l f])
  show ?thesis using c f by blast
qed

section \<open>The website line\<close>

declare py_replace.simps [simp del]

lemma py_replace_Nil [simp]: "old \<noteq> [] \<Longrightarrow> py_replace old new [] = []"
  by (simp add: py_replace.simps)

lemma py_replace_hit:
  "old \<noteq> [] \<Longrightarrow> py_replace old new (old @ s) = new @ py_replace old new s"
  by (cases old) (simp_all add: py_replace.simps)

lemma py_replace_miss:
  "old \<noteq> [] \<Longrightarrow> take (length old) (c # cs) \<noteq> old \<Longrightarrow>
   py_replace old new (c # cs) = c # py_replace old new cs"
  by (simp add: py_replace.simps)

lemma py_replace_absent:
  "old \<noteq> [] \<Longrightarrow> \<not> sublist old s \<Longrightarrow> py_replace old new s = s"
proof (induction s)
  case Nil
  then show ?case by simp
next
  case (Cons c cs)
  have "take (length old) (c # cs) \<noteq> old"
  proof
    assume "take (length old) (c # cs) = old"
    then have "c # cs = old @ drop (length old) (c # cs)"
      by (metis append_take_drop_id)
    then have "sublist old (c # cs)"
      by (metis sublist_appendI append_Nil)
    then show False using Cons.prems by simp
  qed
  moreover have "\<not> sublist old cs"
    using Cons.prems by (meson sublist_Cons_right)
  ultimately show ?case using Cons by (simp add: py_replace_miss)
qed

lemma replace_https_strips:
  assumes "\<not> sublist (u ''https://'') (strip_leading_https w)"
  shows "py_replace (u ''https://'') [] w = strip_leading_https w"
proof (cases "take 8 w = u ''https://''")
  case True
  then have w: "w = u ''https://'' @ drop 8 w"
    by (metis append_take_drop_id)
  have "py_replace (u ''https://'') [] (u ''https://'' @ drop 8 w) = drop 8 w"
    using assms True py_replace_hit [of "u ''https://''" "[]" "drop 8 w"]
      py_replace_absent [of "u ''https://''" "drop 8 w" "[]"]
    by (simp add: strip_leading_https_def)
  then show ?thesis using w True by (simp add: strip_leading_https_def)
next
  case False
  then show ?thesis
    using assms py_replace_absent [of "u ''https://''" w "[]"]
    by (simp add: strip_leading_https_def)
qed

text \<open>
  The website line for a value that holds \<open>https://\<close> nowhere but at its start. The
  line is written for \<open>contact:website\<close> when that attribute is present, and for
  \<open>website\<close> only when it is absent (the line is written when the value chosen is not
  empty). The link target is the value unchanged; the text shown is the value without a
  leading \<open>https://\<close>, and otherwise unchanged.
\<close>

lemma website_line_leading_https:
  "(tags (u ''contact:website'') = Some w \<and> w \<noteq> []
      \<and> \<not> sublist (u ''https://'') (strip_leading_https w) \<longrightarrow>
      popup_website tags = popup_row [0x1F310] (anchor w (strip_leading_https w)))
   \<and> (tags (u ''contact:website'') = None \<and> tags (u ''website'') = Some w \<and> w \<noteq> []
      \<and> \<not> sublist (u ''https://'') (strip_leading_https w) \<longrightarrow>
      popup_website tags = popup_row [0x1F310] (anchor w (strip_leading_https w)))"
proof -
  have a: "popup_website tags = popup_row [0x1F310] (anchor w (strip_leading_https w))"
    if "tags (u ''contact:website'') = Some w" "w \<noteq> []"
       "\<not> sublist (u ''https://'') (strip_leading_https w)"
    using that replace_https_strips by (simp add: popup_website_def preferred_def)
  have b: "popup_website tags = popup_row [0x1F310] (anchor w (strip_leading_https w))"
    if "tags (u ''contact:website'') = None" "tags (u ''website'') = Some w" "w \<noteq> []"
       "\<not> sublist (u ''https://'') (strip_leading_https w)"
    using that replace_https_strips by (simp add: popup_website_def preferred_def)
  show ?thesis using a b by blast
qed

lemma website_line_leading_https_example:
  "popup_website [u ''contact:website'' \<mapsto> u ''https://green.example'',
                  u ''website'' \<mapsto> u ''http://old.example'']
     = popup_row [0x1F310] (anchor (u ''https://green.example'') (u ''green.example''))
   \<and> popup_website [u ''website'' \<mapsto> u ''http://old.example'']
     = popup_row [0x1F310] (anchor (u ''http://old.example'') (u ''http://old.example''))"
proof -
  have s1: "strip_leading_https (u ''https://green.example'') = u ''green.example''"
    by (simp add: strip_leading_https_def u_def)
  have s2: "strip_leading_https (u ''http://old.example'') = u ''http://old.example''"
    by (simp add: strip_leading_https_def u_def)
  have n1: "\<not> sublist (u ''https://'') (strip_leading_https (u ''https://green.example''))"
    unfolding s1 by (simp add: u_def sublist_code)
  have n2: "\<not> sublist (u ''https://'') (strip_leading_https (u ''http://old.example''))"
    unfolding s2 by (simp add: u_def sublist_code)
  have a: "popup_website [u ''contact:website'' \<mapsto> u ''https://green.example'',
                  u ''website'' \<mapsto> u ''http://old.example'']
     = popup_row [0x1F310] (anchor (u ''https://green.example'') (u ''green.example''))"
    using website_line_leading_https
            [of "[u ''contact:website'' \<mapsto> u ''https://green.example'',
                  u ''website'' \<mapsto> u ''http://old.example'']"
                "u ''https://green.example''"] n1
    by (simp add: s1)
  have b: "popup_website [u ''website'' \<mapsto> u ''http://old.example'']
     = popup_row [0x1F310] (anchor (u ''http://old.example'') (u ''http://old.example''))"
    using website_line_leading_https
            [of "[u ''website'' \<mapsto> u ''http://old.example'']" "u ''http://old.example''"] n2
    by (simp add: s2)
  show ?thesis using a b by blast
qed

text \<open>
  C9 says that the text shown for a website is its value with only a leading
  \<open>https://\<close> stripped. The code does not do that: the text shown is
  \<open>placeWebsite.replace('https://', '')\<close>, which removes \<open>https://\<close> wherever it stands,
  so a value that holds it in the middle is shown with a part missing. The choice of the
  attribute and the link target are as the claim says.
\<close>

theorem C9_website_text_replaces_everywhere:
  "(tags (u ''contact:website'') = Some w \<and> w \<noteq> [] \<longrightarrow>
      popup_website tags =
        popup_row [0x1F310] (anchor w (py_replace (u ''https://'') [] w)))
   \<and> (tags (u ''contact:website'') = None \<and> tags (u ''website'') = Some w \<and> w \<noteq> [] \<longrightarrow>
      popup_website tags =
        popup_row [0x1F310] (anchor w (py_replace (u ''https://'') [] w)))"
  by (simp add: popup_website_def preferred_def)

theorem C9_website_text_replaces_everywhere_witness:
  "popup_website [u ''website'' \<mapsto> u ''http://a.example/?next=https://b.example'']
     = popup_row [0x1F310]
         (anchor (u ''http://a.example/?next=https://b.example'')
                 (u ''http://a.example/?next=b.example''))
   \<and> strip_leading_https (u ''http://a.example/?next=https://b.example'')
     = u ''http://a.example/?next=https://b.example''
   \<and> u ''http://a.example/?next=b.example'' \<noteq> u ''http://a.example/?next=https://b.example''"
proof -
  let ?w = "u ''http://a.example/?next=https://b.example''"
  have r: "py_replace (u ''https://'') [] ?w = u ''http://a.example/?next=b.example''"
    by (simp add: u_def py_replace.simps)
  have s: "strip_leading_https ?w = ?w"
    by (simp add: strip_leading_https_def u_def)
  have "popup_website [u ''website'' \<mapsto> ?w]
          = popup_row [0x1F310] (anchor ?w (py_replace (u ''https://'') [] ?w))"
    using C9_website_text_replaces_everywhere [of "[u ''website'' \<mapsto> ?w]" ?w] by simp
  then show ?thesis using r s by simp
qed

section \<open>Escaping and the title\<close>

lemma py_replace_single:
  "py_replace [c] new s = concat (map (\<lambda>x. if x = c then new else [x]) s)"
  by (induction s) (simp_all add: py_replace.simps)

lemma concat_map_concat_map:
  "concat (map f (concat (map g s))) = concat (map (\<lambda>x. concat (map f (g x))) s)"
  by (induction s) simp_all

lemma html_escape_Nil: "html_escape [] = []"
  by (simp add: html_escape_def py_replace_single)

lemma html_escape_Cons: "html_escape (c # s) = escape_char c @ html_escape s"
  by (simp add: html_escape_def py_replace_single u_def escape_char_def)

lemma html_escape_chars: "html_escape s = concat (map escape_char s)"
  by (induction s) (simp_all add: html_escape_Nil html_escape_Cons)

declare unescape_sub.simps [simp del]

lemma rstrip_semicolon_digits:
  assumes "ds \<noteq> []" "last ds \<noteq> of_char CHR '';''" "semi = [] \<or> semi = [of_char CHR '';'']"
  shows "rstrip_semicolon (ds @ semi) = ds"
proof -
  have "dropWhile (\<lambda>c. c = of_char CHR '';'') (rev ds) = rev ds"
    using assms(1,2) by (cases "rev ds") (auto simp: last_rev [symmetric] simp del: last_rev)
  then show ?thesis
    using assms(3) by (auto simp: rstrip_semicolon_def)
qed

lemma opt_semicolon_cases:
  "opt_semicolon s = (semi, rest) \<Longrightarrow> semi = [] \<or> semi = [of_char CHR '';'']"
  by (cases s) (auto split: if_splits)

lemma takeWhile_last: "takeWhile P xs \<noteq> [] \<Longrightarrow> P (last (takeWhile P xs))"
  by (metis last_in_set set_takeWhileD)

lemma replace_charref_decimal:
  assumes "match_decimal s = Some (g, rest)"
  shows "\<exists>r. replace_charref h g = Inr r"
proof -
  from assms obtain c cs semi where s: "s = c # cs" and c: "c = of_char CHR ''#''"
    and ne: "takeWhile is_digit cs \<noteq> []"
    and o: "opt_semicolon (dropWhile is_digit cs) = (semi, rest)"
    and g: "g = c # takeWhile is_digit cs @ semi"
    by (auto simp: match_decimal_def split: list.splits if_splits prod.splits)
  let ?ds = "takeWhile is_digit cs"
  obtain x ds' where ds: "?ds = x # ds'" using ne by (cases ?ds) auto
  have dx: "is_digit x" by (metis ds list.set_intros(1) set_takeWhileD)
  then have nx: "x \<noteq> of_char CHR ''x''" "x \<noteq> of_char CHR ''X''"
    by (auto simp: is_digit_def)
  have "is_digit (last ?ds)" using ne by (rule takeWhile_last)
  then have l: "last ?ds \<noteq> of_char CHR '';''" by (auto simp: is_digit_def)
  have r: "rstrip_semicolon (?ds @ semi) = ?ds"
    using ne l opt_semicolon_cases [OF o] by (rule rstrip_semicolon_digits)
  have all: "list_all is_digit ?ds"
    by (simp add: list_all_iff) (meson set_takeWhileD)
  have "py_int 10 ?ds = Inr (foldl (\<lambda>a c. 10 * a + digit_value c) 0 ?ds)"
    using ne all by (simp add: py_int_def)
  then show ?thesis
    using g c ds nx r by (auto simp: replace_charref_def)
qed

lemma replace_charref_hex:
  assumes "match_hex s = Some (g, rest)"
  shows "\<exists>r. replace_charref h g = Inr r"
proof -
  from assms obtain c x cs semi where s: "s = c # x # cs" and c: "c = of_char CHR ''#''"
    and x: "x = of_char CHR ''x'' \<or> x = of_char CHR ''X''"
    and ne: "takeWhile is_hexdigit cs \<noteq> []"
    and o: "opt_semicolon (dropWhile is_hexdigit cs) = (semi, rest)"
    and g: "g = c # x # takeWhile is_hexdigit cs @ semi"
    by (auto simp: match_hex_def split: list.splits if_splits prod.splits)
  let ?ds = "takeWhile is_hexdigit cs"
  have "is_hexdigit (last ?ds)" using ne by (rule takeWhile_last)
  then have l: "last ?ds \<noteq> of_char CHR '';''" by (auto simp: is_hexdigit_def is_digit_def)
  have r: "rstrip_semicolon (?ds @ semi) = ?ds"
    using ne l opt_semicolon_cases [OF o] by (rule rstrip_semicolon_digits)
  have all: "list_all is_hexdigit ?ds"
    by (simp add: list_all_iff) (meson set_takeWhileD)
  have "py_int 16 ?ds = Inr (foldl (\<lambda>a c. 16 * a + digit_value c) 0 ?ds)"
    using ne all by (simp add: py_int_def)
  then show ?thesis
    using g c x r by (auto simp: replace_charref_def)
qed

lemma replace_charref_named:
  assumes "match_named s = Some (g, rest)"
  shows "\<exists>r. replace_charref h g = Inr r"
proof -
  let ?n = "take 32 (takeWhile is_name_char s)"
  from assms obtain semi where ne: "?n \<noteq> []" and g: "g = ?n @ semi"
    by (auto simp: match_named_def Let_def split: if_splits prod.splits)
  obtain x n' where n: "?n = x # n'" using ne by (cases ?n) auto
  have "x \<in> set (takeWhile is_name_char s)"
    by (metis n in_set_takeD list.set_intros(1))
  then have "is_name_char x" by (meson set_takeWhileD)
  then have "x \<noteq> of_char CHR ''#''" by (auto simp: is_name_char_def u_def)
  then show ?thesis
    using g n by (auto simp: replace_charref_def split: option.splits)
qed

lemma replace_charref_total:
  "charref_match s = Some (g, rest) \<Longrightarrow> \<exists>r. replace_charref h g = Inr r"
  by (auto simp: charref_match_def split: option.splits
           dest: replace_charref_decimal replace_charref_hex replace_charref_named)

lemma unescape_sub_total: "\<exists>t. unescape_sub h s = Inr t"
proof (induction h s rule: unescape_sub.induct)
  case (1 h)
  then show ?case by (simp add: unescape_sub.simps)
next
  case (2 h c cs)
  show ?case
  proof (cases "c = of_char CHR ''&''")
    case False
    then show ?thesis using 2(3) by (auto simp: unescape_sub.simps)
  next
    case True
    show ?thesis
    proof (cases "charref_match cs")
      case None
      then show ?thesis using True 2(1) by (auto simp: unescape_sub.simps)
    next
      case (Some m)
      obtain g rest where m: "m = (g, rest)" by (cases m)
      obtain r where r: "replace_charref h g = Inr r"
        using replace_charref_total Some m by blast
      then obtain t where "unescape_sub h rest = Inr t"
        using 2(2) [OF True Some m [symmetric] r] by blast
      then show ?thesis using True Some m r by (auto simp: unescape_sub.simps)
    qed
  qed
qed

lemma html_unescape_total: "\<exists>t. html_unescape h s = Inr t"
  using unescape_sub_total by (auto simp: html_unescape_def)


lemma unescape_sub_plain:
  "c \<noteq> of_char CHR ''&'' \<Longrightarrow>
   unescape_sub h (c # s) = (case unescape_sub h s of Inl e \<Rightarrow> Inl e | Inr t \<Rightarrow> Inr (c # t))"
  by (simp add: unescape_sub.simps)

lemma charref_amp: "charref_match (u ''amp;'' @ rest) = Some (u ''amp;'', rest)"
  by (simp add: charref_match_def match_decimal_def match_hex_def match_named_def u_def
                is_name_char_def)

lemma charref_lt: "charref_match (u ''lt;'' @ rest) = Some (u ''lt;'', rest)"
  by (simp add: charref_match_def match_decimal_def match_hex_def match_named_def u_def
                is_name_char_def)

lemma charref_gt: "charref_match (u ''gt;'' @ rest) = Some (u ''gt;'', rest)"
  by (simp add: charref_match_def match_decimal_def match_hex_def match_named_def u_def
                is_name_char_def)

lemma charref_quot: "charref_match (u ''quot;'' @ rest) = Some (u ''quot;'', rest)"
  by (simp add: charref_match_def match_decimal_def match_hex_def match_named_def u_def
                is_name_char_def)

lemma charref_x27: "charref_match (u ''#x27;'' @ rest) = Some (u ''#x27;'', rest)"
  by (simp add: charref_match_def match_decimal_def match_hex_def u_def
                is_digit_def is_hexdigit_def)

lemma replace_charref_x27: "replace_charref h (u ''#x27;'') = Inr [0x27]"
  by (simp add: replace_charref_def u_def rstrip_semicolon_def py_int_def is_hexdigit_def
                is_digit_def digit_value_def numeric_charref_def invalid_charrefs_def
                invalid_codepoints_def)

lemma replace_charref_named_hit:
  "h g = Some r \<Longrightarrow> g \<noteq> [] \<Longrightarrow> hd g \<noteq> of_char CHR ''#'' \<Longrightarrow> replace_charref h g = Inr r"
  by (cases g) (simp_all add: replace_charref_def)

lemma unescape_sub_entity:
  assumes "charref_match (g @ rest) = Some (g, rest)" "replace_charref h g = Inr r"
  shows "unescape_sub h (of_char CHR ''&'' # g @ rest) =
         (case unescape_sub h rest of Inl e \<Rightarrow> Inl e | Inr t \<Rightarrow> Inr (r @ t))"
  using assms by (simp add: unescape_sub.simps)

lemma unescape_sub_escape_char:
  assumes "has_escape_entities h"
  shows "unescape_sub h (escape_char c @ rest) =
         (case unescape_sub h rest of Inl e \<Rightarrow> Inl e | Inr t \<Rightarrow> Inr (c # t))"
proof -
  have amp: "u ''&amp;'' = of_char CHR ''&'' # u ''amp;''"
    and lt: "u ''&lt;'' = of_char CHR ''&'' # u ''lt;''"
    and gt: "u ''&gt;'' = of_char CHR ''&'' # u ''gt;''"
    and quot: "u ''&quot;'' = of_char CHR ''&'' # u ''quot;''"
    and x27: "u ''&#x27;'' = of_char CHR ''&'' # u ''#x27;''"
    and one: "u ''&'' = [of_char CHR ''&'']" "u ''<'' = [of_char CHR ''<'']"
      "u ''>'' = [of_char CHR ''>'']"
    by (simp_all add: u_def)
  have h: "replace_charref h (u ''amp;'') = Inr (u ''&'')"
    "replace_charref h (u ''lt;'') = Inr (u ''<'')"
    "replace_charref h (u ''gt;'') = Inr (u ''>'')"
    "replace_charref h (u ''quot;'') = Inr [0x22]"
    using assms
    by (simp_all add: has_escape_entities_def replace_charref_named_hit u_Cons)
  consider "c = of_char CHR ''&''" | "c = of_char CHR ''<''" | "c = of_char CHR ''>''"
    | "c = 0x22" | "c = 0x27"
    | "c \<noteq> of_char CHR ''&''" "c \<noteq> of_char CHR ''<''" "c \<noteq> of_char CHR ''>''"
      "c \<noteq> 0x22" "c \<noteq> 0x27"
    by blast
  then show ?thesis
  proof cases
    case 1
    then show ?thesis
      using unescape_sub_entity [OF charref_amp h(1)] by (simp add: escape_char_def amp one split: sum.splits)
  next
    case 2
    then show ?thesis
      using unescape_sub_entity [OF charref_lt h(2)] by (simp add: escape_char_def lt one split: sum.splits)
  next
    case 3
    then show ?thesis
      using unescape_sub_entity [OF charref_gt h(3)] by (simp add: escape_char_def gt one split: sum.splits)
  next
    case 4
    then show ?thesis
      using unescape_sub_entity [OF charref_quot h(4)] by (simp add: escape_char_def quot split: sum.splits)
  next
    case 5
    then show ?thesis
      using unescape_sub_entity [OF charref_x27 replace_charref_x27]
      by (simp add: escape_char_def x27 split: sum.splits)
  next
    case 6
    then show ?thesis
      by (simp add: escape_char_def unescape_sub_plain)
  qed
qed

lemma unescape_sub_escaped:
  "has_escape_entities h \<Longrightarrow> unescape_sub h (concat (map escape_char s)) = Inr s"
  by (induction s) (simp_all add: unescape_sub.simps(1) unescape_sub_escape_char)

lemma unescape_sub_no_amp_prefix:
  "of_char CHR ''&'' \<notin> set g \<Longrightarrow>
   unescape_sub h (g @ s) = (case unescape_sub h s of Inl e \<Rightarrow> Inl e | Inr t \<Rightarrow> Inr (g @ t))"
proof (induction g)
  case Nil
  then show ?case by (simp split: sum.splits)
next
  case (Cons c g)
  then show ?case by (simp add: unescape_sub_plain split: sum.splits)
qed

lemma html_unescape_sub: "html_unescape h s = unescape_sub h s"
proof (cases "of_char CHR ''&'' \<in> set s")
  case True
  then show ?thesis by (simp add: html_unescape_def)
next
  case False
  then have "unescape_sub h (s @ []) = Inr s"
    by (subst unescape_sub_no_amp_prefix) (simp_all add: unescape_sub.simps(1))
  then show ?thesis using False by (simp add: html_unescape_def)
qed

lemma html_unescape_escape:
  "has_escape_entities h \<Longrightarrow> html_unescape h (html_escape s) = Inr s"
  by (simp add: html_unescape_sub html_escape_chars unescape_sub_escaped)

lemma html_unescape_prefixed:
  assumes "has_escape_entities h" "of_char CHR ''&'' \<notin> set g"
  shows "html_unescape h (g @ html_escape s) = Inr (g @ s)"
  using assms
  by (simp add: html_unescape_sub unescape_sub_no_amp_prefix html_escape_chars
                unescape_sub_escaped)

lemma py_replace_quote: "py_replace [0x22] [0x201D] s = quote_to_right_quote s"
  by (induction s) (simp_all add: py_replace_single quote_to_right_quote_def)

lemma quote_to_right_quote_id: "0x22 \<notin> set g \<Longrightarrow> quote_to_right_quote g = g"
  by (induction g) (auto simp: quote_to_right_quote_def)

lemma icon_glyphs_plain:
  "list_all (\<lambda>(kv, ic). of_char CHR ''&'' \<notin> set (snd ic) \<and> 0x22 \<notin> set (snd ic)) ICON_MAPPING"
  by (simp add: ICON_MAPPING_def)

lemma first_matching_icon_glyph:
  "of_char CHR ''&'' \<notin> set (snd (first_matching_icon tags))
   \<and> 0x22 \<notin> set (snd (first_matching_icon tags))"
proof (cases "find (\<lambda>(kv, ic). rule_matches tags kv) ICON_MAPPING")
  case None
  then show ?thesis by (simp add: first_matching_icon_def default_icon_def)
next
  case (Some e)
  then have "e \<in> set ICON_MAPPING"
    by (metis find_Some_iff nth_mem)
  then show ?thesis
    using icon_glyphs_plain Some by (auto simp: first_matching_icon_def list_all_iff)
qed

text \<open>
  C8. For a record whose raw name is \<open>s\<close>, the name of the popup is the glyph, a space
  and the escaped \<open>s\<close>; decoding the entities of that text gives back the glyph, a space
  and \<open>s\<close>, and the title is that text with every double quote replaced by the right
  double quotation mark and nothing else changed. The table of named references is assumed
  to hold \<open>amp;\<close>, \<open>lt;\<close>, \<open>gt;\<close> and \<open>quot;\<close>, as Python's does.
\<close>

theorem C8_title_round_trip:
  assumes "has_escape_entities (html5 env)"
    and "raw (u ''name'') = Some s"
    and "determine_icon (escape_tags raw) = Inr icon"
  shows "name_title env icon typ ide (escape_tags raw) =
           Inr (snd icon @ u '' '' @ html_escape s,
                snd icon @ u '' '' @ quote_to_right_quote s)
         \<and> html_unescape (html5 env) (html_escape s) = Inr s
         \<and> html_unescape (html5 env) (snd icon @ u '' '' @ html_escape s)
             = Inr (snd icon @ u '' '' @ s)
         \<and> length (quote_to_right_quote s) = length s
         \<and> (\<forall>i<length s. quote_to_right_quote s ! i = (if s ! i = 0x22 then 0x201D else s ! i))"
proof -
  have icon: "icon = first_matching_icon (escape_tags raw)"
    using assms(3) by (simp add: determine_icon_first_match)
  then have g: "of_char CHR ''&'' \<notin> set (snd icon @ u '' '')"
    "0x22 \<notin> set (snd icon @ u '' '')"
    using first_matching_icon_glyph [of "escape_tags raw"] by (simp_all add: u_def)
  have un: "html_unescape (html5 env) ((snd icon @ u '' '') @ html_escape s)
             = Inr ((snd icon @ u '' '') @ s)"
    using assms(1) g(1) by (rule html_unescape_prefixed)
  have q: "quote_to_right_quote ((snd icon @ u '' '') @ s)
             = (snd icon @ u '' '') @ quote_to_right_quote s"
    using quote_to_right_quote_id [OF g(2)] by (simp add: quote_to_right_quote_def)
  have n: "escape_tags raw (u ''name'') = Some (html_escape s)"
    using assms(2) by (simp add: escape_tags_def)
  have "name_title env icon typ ide (escape_tags raw) =
           Inr (snd icon @ u '' '' @ html_escape s,
                snd icon @ u '' '' @ quote_to_right_quote s)"
    using n un q by (simp add: name_title_def py_replace_quote)
  moreover have "html_unescape (html5 env) (html_escape s) = Inr s"
    using assms(1) by (rule html_unescape_escape)
  ultimately show ?thesis
    using un by (simp add: quote_to_right_quote_def)
qed


lemma sample_env_entities: "has_escape_entities (html5 (sample_env http els))"
  by (simp add: has_escape_entities_def sample_env_def)

theorem C8_title_round_trip_witness:
  "name_title (sample_env (\<lambda>url. Inl RequestError) []) (u ''cafe'', [0x2615]) (u ''node'') 1
     (escape_tags [u ''name'' \<mapsto> u ''R&B '' @ [0x22] @ u ''Joe'' @ [0x27] @ u ''s'' @ [0x22]
                                   @ u '' <bar>'',
                   u ''amenity'' \<mapsto> u ''cafe''])
   = Inr ([0x2615] @ u '' R&amp;B &quot;Joe&#x27;s&quot; &lt;bar&gt;'',
          [0x2615] @ u '' R&B '' @ [0x201D] @ u ''Joe'' @ [0x27] @ u ''s'' @ [0x201D]
            @ u '' <bar>'')"
proof -
  let ?s = "u ''R&B '' @ [0x22] @ u ''Joe'' @ [0x27] @ u ''s'' @ [0x22] @ u '' <bar>''"
  let ?raw = "[u ''name'' \<mapsto> ?s, u ''amenity'' \<mapsto> u ''cafe'']"
  let ?e = "sample_env (\<lambda>url. Inl RequestError) []"
  have m: "rule_matches (escape_tags ?raw) (u ''amenity:cafe'')"
    by (simp add: rule_matches_def rule_of_def escape_tags_def html_escape_chars escape_char_def
                  before_semicolon_def u_def)
  have nm: "\<not> rule_matches (escape_tags ?raw) (u ''cuisine:pizza'')"
    "\<not> rule_matches (escape_tags ?raw) (u ''amenity:bar'')"
    "\<not> rule_matches (escape_tags ?raw) (u ''amenity:bbq'')"
    by (simp_all add: rule_matches_def rule_of_def escape_tags_def html_escape_chars
                      escape_char_def before_semicolon_def u_def)
  have icon: "determine_icon (escape_tags ?raw) = Inr (u ''cafe'', [0x2615])"
    using m nm by (simp add: determine_icon_first_match first_matching_icon_def ICON_MAPPING_def)
  have h1: "?raw (u ''name'') = Some ?s" by simp
  have r: "name_title ?e (u ''cafe'', [0x2615]) (u ''node'') 1 (escape_tags ?raw)
             = Inr (snd (u ''cafe'', [0x2615::nat]) @ u '' '' @ html_escape ?s,
                    snd (u ''cafe'', [0x2615::nat]) @ u '' '' @ quote_to_right_quote ?s)"
    using C8_title_round_trip [OF sample_env_entities h1 icon, of "\<lambda>url. Inl RequestError" "[]"
                                 "u ''node''" 1]
    by blast
  have e1: "snd (u ''cafe'', [0x2615::nat]) @ u '' '' @ html_escape ?s
              = [0x2615] @ u '' R&amp;B &quot;Joe&#x27;s&quot; &lt;bar&gt;''"
    by (simp add: html_escape_chars escape_char_def u_def)
  have q1: "snd (u ''cafe'', [0x2615::nat]) @ u '' '' @ quote_to_right_quote ?s
              = [0x2615] @ u '' R&B '' @ [0x201D] @ u ''Joe'' @ [0x27] @ u ''s'' @ [0x201D]
                  @ u '' <bar>''"
    by (simp add: quote_to_right_quote_def u_def)
  show ?thesis
    by (simp only: r e1 q1)
qed

section \<open>The loop of write_data\<close>

lemma falsy_iff: "(\<not> truthy v) = (v \<in> {PNone, PBool False, PInt 0, PFloat 0, PStr []})"
  by (cases v) auto

lemma node_way_distinct: "u ''node'' \<noteq> u ''way''"
  by simp

lemma process_node_skip:
  assumes "e_type e = u ''node''"
    and "\<not> truthy (get_or_None (e_lat e)) \<or> \<not> truthy (get_or_None (e_lon e))"
  shows "process_element env e st =
           Inr (st\<lparr>w_lat := Some (get_or_None (e_lat e)), w_lon := Some (get_or_None (e_lon e))\<rparr>)"
  using assms by (auto simp: process_element_def resolve_coords_def coords_or_skip_def Let_def)

lemma resolve_coords_irrelevant:
  assumes "e_type e = u ''node'' \<or> e_type e = u ''way''"
  shows "resolve_coords e (st\<lparr>w_lat := a, w_lon := b\<rparr>) = resolve_coords e st"
  using assms by (auto simp: resolve_coords_def split: option.splits)

lemma process_element_coords_irrelevant:
  assumes "e_type e = u ''node'' \<or> e_type e = u ''way''"
  shows "process_element env e (st\<lparr>w_lat := a, w_lon := b\<rparr>) = process_element env e st"
  using assms by (simp add: process_element_def resolve_coords_irrelevant)

lemma write_loop_append:
  "write_loop env (xs @ ys) st =
     (case write_loop env xs st of
        (Some x, st') \<Rightarrow> (Some x, st')
      | (None, st') \<Rightarrow> write_loop env ys st')"
  by (induction xs arbitrary: st) (auto split: sum.splits)

lemma write_loop_skip_node:
  assumes "e_type e = u ''node''"
    and "\<not> truthy (get_or_None (e_lat e)) \<or> \<not> truthy (get_or_None (e_lon e))"
    and "ys = [] \<or> e_type (hd ys) = u ''node'' \<or> e_type (hd ys) = u ''way''"
  shows "fst (write_loop env (e # ys) st) = fst (write_loop env ys st)
         \<and> w_file (snd (write_loop env (e # ys) st)) = w_file (snd (write_loop env ys st))
         \<and> w_counts (snd (write_loop env (e # ys) st)) = w_counts (snd (write_loop env ys st))"
proof (cases ys)
  case Nil
  then show ?thesis using process_node_skip [OF assms(1,2)] by simp
next
  case (Cons y ys')
  then have "e_type y = u ''node'' \<or> e_type y = u ''way''" using assms(3) by simp
  then show ?thesis
    using process_node_skip [OF assms(1,2)] Cons process_element_coords_irrelevant
    by (simp split: sum.splits)
qed

lemma write_data_eq:
  assumes "fst (write_loop env xs (initial_wstate env)) = fst (write_loop env ys (initial_wstate env))"
    and "w_file (snd (write_loop env xs (initial_wstate env)))
         = w_file (snd (write_loop env ys (initial_wstate env)))"
    and "w_counts (snd (write_loop env xs (initial_wstate env)))
         = w_counts (snd (write_loop env ys (initial_wstate env)))"
  shows "write_data env xs fs = write_data env ys fs"
  using assms by (auto simp: write_data_def split: prod.splits option.splits)

text \<open>
  C6. A node whose \<open>lat\<close> or \<open>lon\<close> is absent, zero or otherwise false is skipped: the
  step for it writes nothing and changes no counter. The file written for a collection
  with such a node is the file written for the collection without it, when the node is the
  last element or the element after it is a node or a way. The false values are \<open>None\<close>
  (also for an absent key), \<open>False\<close>, the integer and the float zero, and the empty string.
\<close>

theorem C6_node_without_coordinates_skipped:
  assumes "e_type e = u ''node''"
    and "\<not> truthy (get_or_None (e_lat e)) \<or> \<not> truthy (get_or_None (e_lon e))"
  shows "(\<exists>st'. process_element env e st = Inr st'
               \<and> w_file st' = w_file st \<and> w_counts st' = w_counts st)
         \<and> (ys = [] \<or> e_type (hd ys) = u ''node'' \<or> e_type (hd ys) = u ''way'' \<longrightarrow>
              write_data env (xs @ e # ys) fs = write_data env (xs @ ys) fs)
         \<and> (\<not> truthy v) = (v \<in> {PNone, PBool False, PInt 0, PFloat 0, PStr []})
         \<and> get_or_None None = PNone"
proof -
  have a: "\<exists>st'. process_element env e st = Inr st'
               \<and> w_file st' = w_file st \<and> w_counts st' = w_counts st"
    using process_node_skip [OF assms] by simp
  have b: "write_data env (xs @ e # ys) fs = write_data env (xs @ ys) fs"
    if "ys = [] \<or> e_type (hd ys) = u ''node'' \<or> e_type (hd ys) = u ''way''"
  proof (rule write_data_eq)
    obtain r st1 where x: "write_loop env xs (initial_wstate env) = (r, st1)"
      by (cases "write_loop env xs (initial_wstate env)")
    note s = write_loop_skip_node [OF assms that, of env st1]
    show "fst (write_loop env (xs @ e # ys) (initial_wstate env))
          = fst (write_loop env (xs @ ys) (initial_wstate env))"
      using x s by (cases r) (simp_all add: write_loop_append)
    show "w_file (snd (write_loop env (xs @ e # ys) (initial_wstate env)))
          = w_file (snd (write_loop env (xs @ ys) (initial_wstate env)))"
      using x s by (cases r) (simp_all add: write_loop_append)
    show "w_counts (snd (write_loop env (xs @ e # ys) (initial_wstate env)))
          = w_counts (snd (write_loop env (xs @ ys) (initial_wstate env)))"
      using x s by (cases r) (simp_all add: write_loop_append)
  qed
  show ?thesis using a b falsy_iff by (simp add: get_or_None_def)
qed


theorem C6_node_without_coordinates_skipped_witness:
  "write_data (sample_env (\<lambda>url. Inl RequestError) []) [node_without_lat] Map.empty
     = write_data (sample_env (\<lambda>url. Inl RequestError) []) [] Map.empty
   \<and> write_data (sample_env (\<lambda>url. Inl RequestError) []) [node_at_zero] Map.empty
     = write_data (sample_env (\<lambda>url. Inl RequestError) []) [] Map.empty
   \<and> (\<exists>st'. process_element (sample_env (\<lambda>url. Inl RequestError) []) node_without_lat
               (initial_wstate (sample_env (\<lambda>url. Inl RequestError) [])) = Inr st'
             \<and> w_file st' = w_file (initial_wstate (sample_env (\<lambda>url. Inl RequestError) []))
             \<and> w_counts st' = w_counts (initial_wstate (sample_env (\<lambda>url. Inl RequestError) [])))"
proof -
  let ?e = "sample_env (\<lambda>url. Inl RequestError) []"
  have t1: "e_type node_without_lat = u ''node''"
    and f1: "\<not> truthy (get_or_None (e_lat node_without_lat))
             \<or> \<not> truthy (get_or_None (e_lon node_without_lat))"
    by (simp_all add: node_without_lat_def get_or_None_def)
  have t2: "e_type node_at_zero = u ''node''"
    and f2: "\<not> truthy (get_or_None (e_lat node_at_zero))
             \<or> \<not> truthy (get_or_None (e_lon node_at_zero))"
    by (simp_all add: node_at_zero_def get_or_None_def)
  have a: "write_data ?e ([] @ node_without_lat # []) Map.empty = write_data ?e ([] @ []) Map.empty"
    using C6_node_without_coordinates_skipped
            [OF t1 f1, where xs = "[]" and ys = "[]" and env = ?e and st = "initial_wstate ?e"]
    by blast
  have b: "write_data ?e ([] @ node_at_zero # []) Map.empty = write_data ?e ([] @ []) Map.empty"
    using C6_node_without_coordinates_skipped
            [OF t2 f2, where xs = "[]" and ys = "[]" and env = ?e and st = "initial_wstate ?e"]
    by blast
  have c: "\<exists>st'. process_element ?e node_without_lat (initial_wstate ?e) = Inr st'
             \<and> w_file st' = w_file (initial_wstate ?e)
             \<and> w_counts st' = w_counts (initial_wstate ?e)"
    using C6_node_without_coordinates_skipped
            [OF t1 f1, where xs = "[]" and ys = "[]" and env = ?e and st = "initial_wstate ?e"]
    by blast
  show ?thesis using a b c by simp
qed

lemma process_way_without_center:
  "e_type e = u ''way'' \<Longrightarrow> e_center e = None \<Longrightarrow> process_element env e st = Inl AttributeError"
  by (simp add: process_element_def resolve_coords_def)

text \<open>
  C7 says that a way without \<open>center\<close> is skipped like a record without coordinates.
  The code does not do that: \<open>e.get('center', None)\<close> gives \<open>None\<close>, the call of
  \<open>.get\<close> on it raises AttributeError, and the exception ends \<open>write_data\<close> at this
  element, whatever was processed before.
\<close>

theorem C7_way_without_center_raises:
  assumes "e_type e = u ''way''" and "e_center e = None"
  shows "process_element env e st = Inl AttributeError
         \<and> (write_loop env xs (initial_wstate env) = (None, st) \<longrightarrow>
              write_loop env (xs @ e # ys) (initial_wstate env) = (Some AttributeError, st)
              \<and> fst (write_data env (xs @ e # ys) fs) = Some AttributeError)"
  using process_way_without_center [OF assms]
  by (simp add: write_loop_append write_data_def)

theorem C7_way_without_center_raises_witness:
  "process_element (sample_env (\<lambda>url. Inl RequestError) []) way_without_center
     (initial_wstate (sample_env (\<lambda>url. Inl RequestError) [])) = Inl AttributeError
   \<and> fst (write_data (sample_env (\<lambda>url. Inl RequestError) []) [way_without_center] Map.empty)
       = Some AttributeError
   \<and> fst (main (sample_env (\<lambda>url. Inr \<lparr>status = 200, data = []\<rparr>) [way_without_center])
            Map.empty) = Some AttributeError"
proof -
  let ?e = "sample_env (\<lambda>url. Inl RequestError) []"
  let ?e2 = "sample_env (\<lambda>url. Inr \<lparr>status = 200, data = []\<rparr>) [way_without_center]"
  have t: "e_type way_without_center = u ''way''" and c: "e_center way_without_center = None"
    by (simp_all add: way_without_center_def)
  have l: "write_loop ?e [] (initial_wstate ?e) = (None, initial_wstate ?e)"
    "write_loop ?e2 [] (initial_wstate ?e2) = (None, initial_wstate ?e2)" by simp_all
  have a: "process_element ?e way_without_center (initial_wstate ?e) = Inl AttributeError
           \<and> fst (write_data ?e ([] @ way_without_center # []) Map.empty) = Some AttributeError"
    using C7_way_without_center_raises
            [OF t c, where env = ?e and st = "initial_wstate ?e" and xs = "[]" and ys = "[]"
                       and fs = Map.empty] l
    by blast
  have b: "fst (write_data ?e2 ([] @ way_without_center # []) Map.empty) = Some AttributeError"
    using C7_way_without_center_raises
            [OF t c, where env = ?e2 and st = "initial_wstate ?e2" and xs = "[]" and ys = "[]"
                       and fs = Map.empty] l
    by blast
  obtain fs1 where "write_data ?e2 [way_without_center] Map.empty = (Some AttributeError, fs1)"
    using b by (cases "write_data ?e2 [way_without_center] Map.empty") simp
  then have "fst (main ?e2 Map.empty) = Some AttributeError"
    using get_data_osm_first_ok [of "[way_without_center]"] by (simp add: main_def)
  then show ?thesis using a by simp
qed


lemma categorize_adds_one: "total_count (snd (categorize tags n)) = total_count n + 1"
  by (simp add: categorize_def total_count_def)

lemma name_title_total: "\<exists>name title. name_title env icon typ ide tags = Inr (name, title)"
proof (cases "tags (u ''name'')")
  case None
  then show ?thesis by (simp add: name_title_def Let_def)
next
  case (Some n)
  obtain t where "html_unescape (html5 env) (snd icon @ u '' '' @ n) = Inr t"
    using html_unescape_total by blast
  then show ?thesis using Some by (simp add: name_title_def)
qed

lemma emit_marker_result:
  "\<exists>title icon category popup n'.
      emit_marker env e tags la lo st =
        Inr (st\<lparr>w_counts := n',
                w_file := w_file st @ [marker_line env la lo title icon category popup]\<rparr>)
      \<and> total_count n' = total_count (w_counts st) + 1"
proof -
  obtain name title where
    nt: "name_title env (first_matching_icon tags) (e_type e) (e_id e) tags = Inr (name, title)"
    using name_title_total by blast
  obtain category n' where c: "categorize tags (w_counts st) = (category, n')"
    by (cases "categorize tags (w_counts st)")
  then have tc: "total_count n' = total_count (w_counts st) + 1"
    using categorize_adds_one [of tags "w_counts st"] by simp
  have "emit_marker env e tags la lo st =
          Inr (st\<lparr>w_counts := n',
                  w_file := w_file st @
                    [marker_line env la lo title (first_matching_icon tags) category
                       (build_popup name (e_type e) (e_id e) tags)]\<rparr>)"
    using nt c by (simp add: emit_marker_def determine_icon_first_match)
  then show ?thesis using tc by blast
qed

lemma process_other_type:
  assumes "e_type e \<noteq> u ''node''" "e_type e \<noteq> u ''way''"
  shows "process_element env e st =
     (case coords_or_skip st of
        Inl x \<Rightarrow> Inl x
      | Inr None \<Rightarrow> Inr st
      | Inr (Some (la, lo)) \<Rightarrow>
          emit_marker env e
            (escape_tags (case e_tags e of None \<Rightarrow> Map.empty | Some t \<Rightarrow> t)) la lo st)"
  using assms by (simp add: process_element_def resolve_coords_def)

lemma emit_marker_coords:
  "emit_marker env e tags la lo st = Inr st' \<Longrightarrow> w_lat st' = w_lat st \<and> w_lon st' = w_lon st"
  by (auto simp: emit_marker_def split: sum.splits prod.splits)

lemma coords_or_skip_keeps:
  "(case coords_or_skip st of
      Inl x \<Rightarrow> Inl x
    | Inr None \<Rightarrow> Inr st
    | Inr (Some (la, lo)) \<Rightarrow> emit_marker env e tags la lo st) = Inr st' \<Longrightarrow>
   w_lat st' = w_lat st \<and> w_lon st' = w_lon st"
  by (auto split: sum.splits option.splits dest: emit_marker_coords)

lemma process_element_coords:
  assumes "process_element env e st = Inr st'"
  shows "(w_lat st', w_lon st') =
           (case coords_of e of
              None \<Rightarrow> (w_lat st, w_lon st)
            | Some (la, lo) \<Rightarrow> (Some la, Some lo))
         \<and> (e_type e = u ''node'' \<or> e_type e = u ''way'' \<longrightarrow> coords_of e \<noteq> None)"
proof -
  consider (node) "e_type e = u ''node''" | (way) "e_type e = u ''way''"
    | (other) "e_type e \<noteq> u ''node''" "e_type e \<noteq> u ''way''" by blast
  then show ?thesis
  proof cases
    case node
    then have r: "resolve_coords e st =
        Inr (st\<lparr>w_lat := Some (get_or_None (e_lat e)), w_lon := Some (get_or_None (e_lon e))\<rparr>)"
      by (simp add: resolve_coords_def)
    have "w_lat st' = Some (get_or_None (e_lat e)) \<and> w_lon st' = Some (get_or_None (e_lon e))"
      using coords_or_skip_keeps assms r by (fastforce simp: process_element_def)
    then show ?thesis using node by (simp add: coords_of_def)
  next
    case way
    then obtain c where c: "e_center e = Some c"
      using assms by (cases "e_center e") (auto simp: process_element_def resolve_coords_def)
    then have r: "resolve_coords e st =
        Inr (st\<lparr>w_lat := Some (get_or_None (c_lat c)), w_lon := Some (get_or_None (c_lon c))\<rparr>)"
      using way by (simp add: resolve_coords_def)
    have "w_lat st' = Some (get_or_None (c_lat c)) \<and> w_lon st' = Some (get_or_None (c_lon c))"
      using coords_or_skip_keeps assms r by (fastforce simp: process_element_def)
    then show ?thesis using way c by (simp add: coords_of_def)
  next
    case other
    then have "w_lat st' = w_lat st \<and> w_lon st' = w_lon st"
      using coords_or_skip_keeps assms by (fastforce simp: process_other_type)
    then show ?thesis using other by (simp add: coords_of_def)
  qed
qed

lemma preceding_coords_snoc:
  "preceding_coords (xs @ [x]) =
     (if e_type x = u ''node'' \<or> e_type x = u ''way'' then coords_of x else preceding_coords xs)"
  by (simp add: preceding_coords_def Let_def)

lemma write_loop_snoc:
  "write_loop env (xs @ [x]) st0 = (None, st) \<Longrightarrow>
   \<exists>st1. write_loop env xs st0 = (None, st1) \<and> process_element env x st1 = Inr st"
  by (auto simp: write_loop_append split: prod.splits option.splits sum.splits)

lemma write_loop_coords:
  "write_loop env xs st0 = (None, st) \<Longrightarrow>
   (w_lat st, w_lon st) =
     (case preceding_coords xs of
        None \<Rightarrow> (w_lat st0, w_lon st0)
      | Some (la, lo) \<Rightarrow> (Some la, Some lo))"
proof (induction xs arbitrary: st rule: rev_induct)
  case Nil
  then show ?case by (simp add: preceding_coords_def)
next
  case (snoc x xs)
  obtain st1 where l: "write_loop env xs st0 = (None, st1)"
    and p: "process_element env x st1 = Inr st"
    using write_loop_snoc [OF snoc.prems] by blast
  note IH = snoc.IH [OF l]
  note pc = process_element_coords [OF p]
  show ?case
  proof (cases "e_type x = u ''node'' \<or> e_type x = u ''way''")
    case True
    then obtain la lo where "coords_of x = Some (la, lo)"
      using pc by (cases "coords_of x") auto
    then show ?thesis using True pc by (simp add: preceding_coords_snoc)
  next
    case False
    then have "coords_of x = None" by (simp add: coords_of_def)
    then show ?thesis using False pc IH by (simp add: preceding_coords_snoc)
  qed
qed

text \<open>
  A node without \<open>lat\<close> followed by a relation: the loop ends without an exception and
  has written no marker, so the relation was skipped although a node precedes it.
\<close>

theorem C10_other_type_never_skipped_counterexample:
  "preceding_coords [node_without_lat] = Some (PNone, PFloat 13.4)
   \<and> fst (write_loop (sample_env (\<lambda>url. Inl RequestError) []) [node_without_lat, relation_element]
            (initial_wstate (sample_env (\<lambda>url. Inl RequestError) []))) = None
   \<and> w_file (snd (write_loop (sample_env (\<lambda>url. Inl RequestError) [])
                     [node_without_lat, relation_element]
                     (initial_wstate (sample_env (\<lambda>url. Inl RequestError) []))))
       = w_file (initial_wstate (sample_env (\<lambda>url. Inl RequestError) []))"
  by (simp add: preceding_coords_def coords_of_def node_without_lat_def relation_element_def
                process_element_def resolve_coords_def coords_or_skip_def get_or_None_def)

text \<open>
  C10, as the code has it. An element that is neither a node nor a way is handled with the
  coordinates resolved for the last node or way before it: if there is none, the step
  raises UnboundLocalError and \<open>write_data\<close> ends there; if both coordinates are true,
  one marker with these coordinates is written and one counter goes up by one; if one of
  them is false, the element is skipped like that node or way was.
\<close>

theorem C10_other_type_reuses_coordinates:
  assumes "e_type e \<noteq> u ''node''" and "e_type e \<noteq> u ''way''"
    and "write_loop env xs (initial_wstate env) = (None, st)"
  shows "(preceding_coords xs = None \<longrightarrow>
            process_element env e st = Inl UnboundLocalError
            \<and> write_loop env (xs @ e # ys) (initial_wstate env) = (Some UnboundLocalError, st))
         \<and> (preceding_coords xs = Some (la, lo) \<and> truthy la \<and> truthy lo \<longrightarrow>
              (\<exists>title icon category popup n'.
                 process_element env e st =
                   Inr (st\<lparr>w_counts := n',
                           w_file := w_file st @
                             [marker_line env la lo title icon category popup]\<rparr>)
                 \<and> total_count n' = total_count (w_counts st) + 1))
         \<and> (preceding_coords xs = Some (la, lo) \<and> (\<not> truthy la \<or> \<not> truthy lo) \<longrightarrow>
              process_element env e st = Inr st)"
proof -
  note wc = write_loop_coords [OF assms(3)]
  have a: "process_element env e st = Inl UnboundLocalError
            \<and> write_loop env (xs @ e # ys) (initial_wstate env) = (Some UnboundLocalError, st)"
    if "preceding_coords xs = None"
  proof -
    have "w_lat st = None" using wc that by (simp add: initial_wstate_def)
    then have "process_element env e st = Inl UnboundLocalError"
      using assms(1,2) by (simp add: process_other_type coords_or_skip_def)
    then show ?thesis using assms(3) by (simp add: write_loop_append)
  qed
  have b: "\<exists>title icon category popup n'.
                 process_element env e st =
                   Inr (st\<lparr>w_counts := n',
                           w_file := w_file st @
                             [marker_line env la lo title icon category popup]\<rparr>)
                 \<and> total_count n' = total_count (w_counts st) + 1"
    if "preceding_coords xs = Some (la, lo)" "truthy la" "truthy lo"
  proof -
    have "coords_or_skip st = Inr (Some (la, lo))"
      using wc that by (simp add: coords_or_skip_def)
    then show ?thesis
      using assms(1,2) emit_marker_result by (simp add: process_other_type)
  qed
  have c: "process_element env e st = Inr st"
    if "preceding_coords xs = Some (la, lo)" "\<not> truthy la \<or> \<not> truthy lo"
  proof -
    have "coords_or_skip st = Inr None"
      using wc that by (auto simp: coords_or_skip_def)
    then show ?thesis
      using assms(1,2) by (simp add: process_other_type)
  qed
  show ?thesis using a b c by blast
qed


lemma process_green_cafe: "\<exists>st. process_element env green_cafe st0 = Inr st"
proof -
  let ?st1 = "st0\<lparr>w_lat := Some (PFloat 52.5), w_lon := Some (PFloat 13.4)\<rparr>"
  have r: "resolve_coords green_cafe st0 = Inr ?st1"
    by (simp add: resolve_coords_def green_cafe_def get_or_None_def)
  have c: "coords_or_skip ?st1 = Inr (Some (PFloat 52.5, PFloat 13.4))"
    by (simp add: coords_or_skip_def)
  obtain st where
    "emit_marker env green_cafe
       (escape_tags (case e_tags green_cafe of None \<Rightarrow> Map.empty | Some t \<Rightarrow> t))
       (PFloat 52.5) (PFloat 13.4) ?st1 = Inr st"
    using emit_marker_result by blast
  then show ?thesis using r c by (simp add: process_element_def)
qed

theorem C10_other_type_reuses_coordinates_witness:
  "write_loop (sample_env (\<lambda>url. Inl RequestError) []) [relation_element]
     (initial_wstate (sample_env (\<lambda>url. Inl RequestError) []))
     = (Some UnboundLocalError, initial_wstate (sample_env (\<lambda>url. Inl RequestError) []))
   \<and> (\<exists>st title icon category popup n'.
        write_loop (sample_env (\<lambda>url. Inl RequestError) []) [green_cafe]
          (initial_wstate (sample_env (\<lambda>url. Inl RequestError) [])) = (None, st)
        \<and> process_element (sample_env (\<lambda>url. Inl RequestError) []) relation_element st =
            Inr (st\<lparr>w_counts := n',
                    w_file := w_file st @
                      [marker_line (sample_env (\<lambda>url. Inl RequestError) []) (PFloat 52.5)
                         (PFloat 13.4) title icon category popup]\<rparr>))
   \<and> (\<exists>st. write_loop (sample_env (\<lambda>url. Inl RequestError) []) [node_without_lat]
               (initial_wstate (sample_env (\<lambda>url. Inl RequestError) [])) = (None, st)
             \<and> process_element (sample_env (\<lambda>url. Inl RequestError) []) relation_element st
                 = Inr st)"
proof -
  let ?e = "sample_env (\<lambda>url. Inl RequestError) []"
  have t: "e_type relation_element \<noteq> u ''node''" "e_type relation_element \<noteq> u ''way''"
    by (simp_all add: relation_element_def)
  have p0: "preceding_coords [] = None"
    by (simp add: preceding_coords_def)
  have l0: "write_loop ?e [] (initial_wstate ?e) = (None, initial_wstate ?e)" by simp
  have a: "write_loop ?e ([] @ relation_element # []) (initial_wstate ?e)
             = (Some UnboundLocalError, initial_wstate ?e)"
    using C10_other_type_reuses_coordinates [OF t l0, where ys = "[]"] p0 by blast
  obtain st1 where l1: "write_loop ?e [green_cafe] (initial_wstate ?e) = (None, st1)"
    using process_green_cafe [of ?e "initial_wstate ?e"] by auto
  have tr: "truthy (PFloat 52.5)" "truthy (PFloat 13.4)" by simp_all
  have p1: "preceding_coords [green_cafe] = Some (PFloat 52.5, PFloat 13.4)"
    by (simp add: preceding_coords_def coords_of_def green_cafe_def get_or_None_def)
  have b: "\<exists>title icon category popup n'.
        process_element ?e relation_element st1 =
            Inr (st1\<lparr>w_counts := n',
                    w_file := w_file st1 @
                      [marker_line ?e (PFloat 52.5) (PFloat 13.4) title icon category popup]\<rparr>)"
    using C10_other_type_reuses_coordinates
            [OF t l1, where la = "PFloat 52.5" and lo = "PFloat 13.4"] p1 tr
    by blast
  obtain st2 where l2: "write_loop ?e [node_without_lat] (initial_wstate ?e) = (None, st2)"
    by (simp add: node_without_lat_def process_element_def resolve_coords_def
                  coords_or_skip_def get_or_None_def)
  have p2: "preceding_coords [node_without_lat] = Some (PNone, PFloat 13.4)"
    by (simp add: preceding_coords_def coords_of_def node_without_lat_def get_or_None_def)
  have c: "process_element ?e relation_element st2 = Inr st2"
    using C10_other_type_reuses_coordinates
            [OF t l2, where la = PNone and lo = "PFloat 13.4"] p2
    by simp
  have a': "write_loop ?e [relation_element] (initial_wstate ?e)
             = (Some UnboundLocalError, initial_wstate ?e)"
    using a by simp
  show ?thesis using a' l1 b l2 c by blast
qed

end
